theory Spec2Isabelle
  imports Main
begin

section \<open>JavaScript runtime pieces used by the program\<close>

text \<open>
  Strings are lists of code units; \<open>length\<close> is JavaScript's \<open>.length\<close>.
  \<open>js_join sep xs\<close> is \<open>xs.join(sep)\<close> on an array of strings.
\<close>

fun js_join :: "string \<Rightarrow> string list \<Rightarrow> string" where
  "js_join sep [] = []"
| "js_join sep [x] = x"
| "js_join sep (x # y # ys) = x @ sep @ js_join sep (y # ys)"

text \<open>
  The regular-expression class \<open>\s\<close>, on code units below 256: tab, line feed,
  vertical tab, form feed, carriage return, space and no-break space.
\<close>

definition is_space :: "char \<Rightarrow> bool" where
  "is_space c = (c \<in> set [CHR 0x09, CHR 0x0A, CHR 0x0B, CHR 0x0C, CHR 0x0D, CHR 0x20, CHR 0xA0])"

text \<open>
  \<open>split_ws text\<close> is \<open>text.split(/\s+/)\<close>: the pieces between maximal runs of white
  space. A leading or trailing run leaves an empty first or last piece, and the empty
  text splits into one empty piece.
\<close>

function split_ws :: "string \<Rightarrow> string list" where
  "split_ws s =
     (let w = takeWhile (\<lambda>c. \<not> is_space c) s;
          rest = dropWhile (\<lambda>c. \<not> is_space c) s
      in if rest = [] then [w] else w # split_ws (dropWhile is_space rest))"
  by pat_completeness auto
termination
proof (relation "measure length")
  fix s :: string and w rest
  assume r: "rest = dropWhile (\<lambda>c. \<not> is_space c) s" and ne: "rest \<noteq> []"
  from ne obtain c cs where cs: "rest = c # cs" by (cases rest) auto
  have "is_space c" using r cs by (metis hd_dropWhile list.sel(1) ne)
  then have "length (dropWhile is_space rest) \<le> length cs"
    using cs by (simp add: length_dropWhile_le)
  moreover have "length rest \<le> length s" using r by (simp add: length_dropWhile_le)
  ultimately show "(dropWhile is_space rest, s) \<in> measure length" using cs by simp
qed simp

declare split_ws.simps [simp del]

text \<open>Decimal rendering of an integer, as a template literal renders a number.\<close>

fun string_of_nat :: "nat \<Rightarrow> string" where
  "string_of_nat n =
     (if n < 10 then [char_of (48 + n)]
      else string_of_nat (n div 10) @ [char_of (48 + n mod 10)])"

declare string_of_nat.simps [simp del]

definition string_of_int :: "int \<Rightarrow> string" where
  "string_of_int i = (if i < 0 then ''-'' @ string_of_nat (nat (- i)) else string_of_nat (nat i))"

section \<open>Query builder\<close>

definition combined :: "string list \<Rightarrow> string" where
  "combined queries =
     (if length queries = 1 then queries ! 0
      else js_join '' OR '' (map (\<lambda>q. ''('' @ q @ '')'') queries))"

definition filters :: "string \<Rightarrow> string list" where
  "filters lang = [''-is:retweet'', ''-is:reply'', ''has:links'', ''-is:nullcast'', ''lang:'' @ lang]"

definition buildPostQuery :: "string list \<Rightarrow> string \<Rightarrow> bool \<Rightarrow> string" where
  "buildPostQuery queries lang raw =
     (if raw then combined queries
      else combined queries @ '' '' @ js_join '' '' (filters lang))"

definition buildNewsQuery :: "string list \<Rightarrow> string" where
  "buildNewsQuery queries = js_join '' OR '' queries"

section \<open>Presenter helpers\<close>

text \<open>
  \<open>timeAgo now parse isoDate\<close>: \<open>now\<close> is \<open>Date.now()\<close> in milliseconds and
  \<open>parse s\<close> is \<open>new Date(s).getTime()\<close>, \<open>None\<close> standing for \<open>NaN\<close> (a text
  that is not a date). Every comparison with \<open>NaN\<close> is false, so such a text falls
  through to the last branch and renders as \<open>NaNd ago\<close>.
\<close>

definition timeAgo :: "int \<Rightarrow> (string \<Rightarrow> int option) \<Rightarrow> string \<Rightarrow> string" where
  "timeAgo now parse isoDate =
     (if isoDate = [] then []
      else case parse isoDate of
        None \<Rightarrow> ''NaNd ago''
      | Some t \<Rightarrow>
          (let diff = now - t;
               mins = diff div 60000
           in if mins < 60 then string_of_int mins @ ''m ago''
              else let hours = mins div 60
                   in if hours < 24 then string_of_int hours @ ''h ago''
                      else let days = hours div 24
                           in string_of_int days @ ''d ago''))"

text \<open>
  The loop of \<open>wordWrap\<close>, on the pair of the lines pushed so far and the current line.
\<close>

fun wrapLoop :: "int \<Rightarrow> string list \<Rightarrow> string list \<times> string \<Rightarrow> string list \<times> string" where
  "wrapLoop width [] (lines, current) = (lines, current)"
| "wrapLoop width (word # words) (lines, current) =
     (if int (length current) + int (length word) + 1 > width
      then wrapLoop width words (lines @ [current], word)
      else wrapLoop width words
             (lines, if current \<noteq> [] then current @ '' '' @ word else word))"

definition wordWrap :: "string \<Rightarrow> int \<Rightarrow> string list" where
  "wordWrap text width =
     (case wrapLoop width (split_ws text) ([], []) of
        (lines, current) \<Rightarrow> if current \<noteq> [] then lines @ [current] else lines)"

section \<open>Data model of the search module\<close>

record SearchParams =
  p_queries :: "string list"
  p_days :: int
  p_max :: int
  p_lang :: string
  p_raw :: bool
  p_posts :: bool

record NewsResult =
  news_id :: string
  headline :: string
  summary :: string
  hook :: string
  category :: string
  news_keywords :: "string list"
  updatedAt :: string

record PostResult =
  post_id :: string
  post_text :: string
  authorId :: string
  authorName :: string
  authorUsername :: string
  verified :: bool
  createdAt :: string
  likes :: int
  reposts :: int
  replies :: int
  url :: string

record SearchOutput =
  query :: string
  news :: "NewsResult list"
  posts :: "PostResult list"
  errors :: "string list"

subsection \<open>Records of the API client\<close>

text \<open>
  A field the API may leave out is an \<open>option\<close>: \<open>None\<close> is JavaScript's
  \<open>undefined\<close> (or \<open>null\<close>), which is what the operator \<open>??\<close> tests.
\<close>

record Story =
  story_restId :: "string option"
  story_name :: "string option"
  story_summary :: "string option"
  story_hook :: "string option"
  story_category :: "string option"
  story_keywords :: "string list option"
  story_lastUpdatedAtMs :: "string option"

record PublicMetrics =
  like_count :: "int option"
  retweet_count :: "int option"
  reply_count :: "int option"

record Tweet =
  tweet_id :: "string option"
  tweet_text :: "string option"
  tweet_authorId :: "string option"
  tweet_createdAt :: "string option"
  tweet_publicMetrics :: "PublicMetrics option"

record User =
  user_id :: string
  user_name :: string
  user_username :: string
  user_verified :: "bool option"

text \<open>The entry type of the local \<open>userMap\<close>.\<close>

record UserEntry =
  ue_name :: string
  ue_username :: string
  ue_verified :: bool

text \<open>
  An error object reported by an endpoint is opaque to the program, which only
  serialises it: it is represented by the text \<open>JSON.stringify\<close> gives for it.
\<close>

datatype Problem = Problem string

fun JSON_stringify :: "Problem \<Rightarrow> string" where
  "JSON_stringify (Problem s) = s"

record NewsResponse =
  nr_errors :: "Problem list option"
  nr_data :: "Story list option"

record Includes =
  inc_users :: "User list option"

record PostResponse =
  pr_errors :: "Problem list option"
  pr_includes :: "Includes option"
  pr_data :: "Tweet list option"

record NewsOptions =
  no_maxResults :: int
  no_maxAgeHours :: int

record PostOptions =
  po_startTime :: string
  po_maxResults :: int
  po_sortOrder :: string
  po_tweetFields :: "string list"
  po_userFields :: "string list"
  po_expansions :: "string list"

text \<open>
  A thrown value, as the \<open>catch\<close> clauses read it. \<open>thrown_message\<close> is what
  \<open>err?.message\<close> gives inside the template literal: \<open>None\<close> when it is
  \<open>undefined\<close> or \<open>null\<close> (also for an \<open>err\<close> that is itself \<open>undefined\<close> or
  \<open>null\<close>), otherwise the conversion of the message to text. \<open>thrown_string\<close> is what
  \<open>String(err)\<close> gives. A conversion to text yields the text, or throws: reading the
  property may throw, and so may the conversion of a symbol or of an object that has no
  primitive value (\<open>Object.create(null)\<close>) or whose \<open>toString\<close> throws.
\<close>

datatype Thrown = Thrown (thrown_message: "Conv option") (thrown_string: Conv)
  and Conv = Text string | Throws Thrown

text \<open>
  The expression \<open>err?.message ?? String(err)\<close> inside a template literal: its text
  (\<open>Inr\<close>), or the value it throws (\<open>Inl\<close>).
\<close>

definition errText :: "Thrown \<Rightarrow> Thrown + string" where
  "errText err =
     (case thrown_message err of
        Some (Text m) \<Rightarrow> Inr m
      | Some (Throws e) \<Rightarrow> Inl e
      | None \<Rightarrow> (case thrown_string err of Text s \<Rightarrow> Inr s | Throws e \<Rightarrow> Inl e))"

text \<open>
  The client: each endpoint call either resolves to a response (\<open>Inr\<close>) or rejects
  with a thrown value (\<open>Inl\<close>).
\<close>

record Client =
  news_search :: "string \<Rightarrow> NewsOptions \<Rightarrow> Thrown + NewsResponse"
  posts_searchRecent :: "string \<Rightarrow> PostOptions \<Rightarrow> Thrown + PostResponse"

text \<open>
  The clock and calendar of the runtime, which the source reaches through \<open>Date\<close>:
  \<open>msToIso s\<close> is \<open>new Date(Number(s)).toISOString()\<close> and \<open>startTimeIso d\<close> is the
  text of the current time moved back \<open>d\<close> days with \<open>setDate\<close>. \<open>toISOString\<close>
  throws a \<open>RangeError\<close> on an invalid date, which is \<open>None\<close> here.
\<close>

record Env =
  msToIso :: "string \<Rightarrow> string option"
  startTimeIso :: "int \<Rightarrow> string option"

definition rangeError :: Thrown where
  "rangeError =
     Thrown (Some (Text ''Invalid time value'')) (Text ''RangeError: Invalid time value'')"

text \<open>The endpoint calls a run makes, in order.\<close>

datatype Call = NewsSearch string NewsOptions | PostsSearchRecent string PostOptions

text \<open>The local variables of \<open>searchNews\<close>, and the calls made so far.\<close>

record State =
  st_errors :: "string list"
  st_news :: "NewsResult list"
  st_posts :: "PostResult list"
  st_calls :: "Call list"

section \<open>Result normalizer\<close>

text \<open>The operator \<open>??\<close>: the left operand unless it is \<open>undefined\<close> or \<open>null\<close>.\<close>

fun nullish :: "'a option \<Rightarrow> 'a \<Rightarrow> 'a" where
  "nullish None d = d"
| "nullish (Some v) d = v"

text \<open>
  The object pushed for one story. Only the last field can throw: a time stamp that is
  present and not the empty text is converted, and the conversion of an invalid date
  throws.
\<close>

definition newsOfStory :: "Env \<Rightarrow> Story \<Rightarrow> Thrown + NewsResult" where
  "newsOfStory env story =
     (case (case story_lastUpdatedAtMs story of
              None \<Rightarrow> Inr []
            | Some ms \<Rightarrow>
                if ms = [] then Inr []
                else (case msToIso env ms of None \<Rightarrow> Inl rangeError | Some isoText \<Rightarrow> Inr isoText)) of
        Inl e \<Rightarrow> Inl e
      | Inr stamp \<Rightarrow>
          Inr \<lparr> news_id = nullish (story_restId story) [],
                headline = nullish (story_name story) [],
                summary = nullish (story_summary story) [],
                hook = nullish (story_hook story) [],
                category = nullish (story_category story) [],
                news_keywords = nullish (story_keywords story) [],
                updatedAt = stamp \<rparr>)"

text \<open>The loop over \<open>newsResponse.data\<close>: the stories pushed before a throw stay pushed.\<close>

fun pushStories :: "Env \<Rightarrow> Story list \<Rightarrow> State \<Rightarrow> State \<times> Thrown option" where
  "pushStories env [] st = (st, None)"
| "pushStories env (story # rest) st =
     (case newsOfStory env story of
        Inl e \<Rightarrow> (st, Some e)
      | Inr n \<Rightarrow> pushStories env rest (st\<lparr>st_news := st_news st @ [n]\<rparr>))"

text \<open>The user lookup built from \<open>includes.users\<close>; a later record of an id replaces an earlier one.\<close>

definition userEntry :: "User \<Rightarrow> UserEntry" where
  "userEntry user =
     \<lparr> ue_name = user_name user, ue_username = user_username user,
       ue_verified = nullish (user_verified user) False \<rparr>"

definition buildUserMap :: "Includes option \<Rightarrow> (string \<rightharpoonup> UserEntry)" where
  "buildUserMap includes =
     (case includes of
        None \<Rightarrow> Map.empty
      | Some inc \<Rightarrow>
          (case inc_users inc of
             None \<Rightarrow> Map.empty
           | Some users \<Rightarrow> fold (\<lambda>user m. m(user_id user \<mapsto> userEntry user)) users Map.empty))"

definition postOfTweet :: "(string \<rightharpoonup> UserEntry) \<Rightarrow> Tweet \<Rightarrow> PostResult" where
  "postOfTweet userMap tweet =
     (let tweetId = nullish (tweet_id tweet) [];
          author = nullish (tweet_authorId tweet) [];
          user = userMap author;
          metrics = tweet_publicMetrics tweet
      in \<lparr> post_id = tweetId,
           post_text = nullish (tweet_text tweet) [],
           authorId = author,
           authorName = nullish (map_option ue_name user) [],
           authorUsername = nullish (map_option ue_username user) [],
           verified = nullish (map_option ue_verified user) False,
           createdAt = nullish (tweet_createdAt tweet) [],
           likes = nullish (Option.bind metrics like_count) 0,
           reposts = nullish (Option.bind metrics retweet_count) 0,
           replies = nullish (Option.bind metrics reply_count) 0,
           url = (case user of
                    None \<Rightarrow> ''https://x.com/i/status/'' @ tweetId
                  | Some u \<Rightarrow>
                      if ue_username u \<noteq> []
                      then ''https://x.com/'' @ ue_username u @ ''/status/'' @ tweetId
                      else ''https://x.com/i/status/'' @ tweetId) \<rparr>)"

subsection \<open>Local engagement ranking\<close>

text \<open>
  The counters are JavaScript numbers, that is doubles; the model takes them to be whole
  numbers. Each arithmetic operation of the source yields the double nearest to the exact
  result, ties going to the even significand: \<open>roundDouble\<close>, which keeps the 53
  leading bits. \<open>dropBits m\<close> is the number of low bits of \<open>m\<close> that do not fit.
  Results beyond the largest double (\<open>Infinity\<close> in the source) are not represented.
\<close>

function dropBits :: "int \<Rightarrow> nat" where
  "dropBits m = (if m < 9007199254740992 then 0 else Suc (dropBits (m div 2)))"
  by pat_completeness auto
termination
  by (relation "measure nat") auto

declare dropBits.simps [simp del]

definition roundDouble :: "int \<Rightarrow> int" where
  "roundDouble x =
     (let m = \<bar>x\<bar>;
          e = dropBits m;
          q = m div 2 ^ e;
          r = m mod 2 ^ e;
          up = (2 * r > 2 ^ e \<or> (2 * r = 2 ^ e \<and> odd q))
      in sgn x * ((if up then q + 1 else q) * 2 ^ e))"

definition score :: "PostResult \<Rightarrow> int" where
  "score p =
     roundDouble (roundDouble (roundDouble (likes p * 2) + roundDouble (reposts p * 3)) + replies p)"

text \<open>The comparator handed to \<open>posts.sort\<close>.\<close>

definition compareFn :: "PostResult \<Rightarrow> PostResult \<Rightarrow> int" where
  "compareFn a b = (let scoreA = score a; scoreB = score b in roundDouble (scoreB - scoreA))"

text \<open>
  \<open>Array.prototype.sort\<close> with a comparator: the language requires the sort to be
  stable, and \<open>cmp a b \<le> 0\<close> keeps \<open>a\<close> before \<open>b\<close>. It is modelled by insertion
  from the right, each element going in front of the first one it may precede.
\<close>

fun sortInsert :: "('a \<Rightarrow> 'a \<Rightarrow> int) \<Rightarrow> 'a \<Rightarrow> 'a list \<Rightarrow> 'a list" where
  "sortInsert cmp x [] = [x]"
| "sortInsert cmp x (y # ys) = (if cmp x y \<le> 0 then x # y # ys else y # sortInsert cmp x ys)"

definition js_sort :: "('a \<Rightarrow> 'a \<Rightarrow> int) \<Rightarrow> 'a list \<Rightarrow> 'a list" where
  "js_sort cmp xs = foldr (sortInsert cmp) xs []"

section \<open>Search orchestrator\<close>

text \<open>
  A block of statements takes the state and ends normally (\<open>None\<close>) or by a throw; the
  state it leaves behind is kept in both cases.
\<close>

type_synonym Block = "State \<Rightarrow> State \<times> Thrown option"

definition tryCatch :: "Block \<Rightarrow> (Thrown \<Rightarrow> Block) \<Rightarrow> Block" where
  "tryCatch body handler st =
     (case body st of (st', None) \<Rightarrow> (st', None) | (st', Some err) \<Rightarrow> handler err st')"

definition andThen :: "Block \<Rightarrow> Block \<Rightarrow> Block" where
  "andThen first second st =
     (case first st of (st', None) \<Rightarrow> second st' | (st', Some err) \<Rightarrow> (st', Some err))"

definition pushErrors :: "string list \<Rightarrow> State \<Rightarrow> State" where
  "pushErrors msgs st = st\<lparr>st_errors := st_errors st @ msgs\<rparr>"

definition reportProblems :: "string \<Rightarrow> Problem list option \<Rightarrow> State \<Rightarrow> State" where
  "reportProblems prefix errs st =
     (case errs of
        None \<Rightarrow> st
      | Some es \<Rightarrow>
          if length es > 0 then pushErrors (map (\<lambda>err. prefix @ JSON_stringify err) es) st
          else st)"

definition newsOptions :: "SearchParams \<Rightarrow> NewsOptions" where
  "newsOptions params =
     (let maxAgeHours = p_days params * 24
      in \<lparr> no_maxResults = p_max params, no_maxAgeHours = maxAgeHours \<rparr>)"

text \<open>The body of the first \<open>try\<close>.\<close>

definition newsBody :: "Env \<Rightarrow> Client \<Rightarrow> SearchParams \<Rightarrow> Block" where
  "newsBody env client params st =
     (let newsQuery = buildNewsQuery (p_queries params);
          opts = newsOptions params;
          st1 = st\<lparr>st_calls := st_calls st @ [NewsSearch newsQuery opts]\<rparr>
      in case news_search client newsQuery opts of
           Inl err \<Rightarrow> (st1, Some err)
         | Inr newsResponse \<Rightarrow>
             (let st2 = reportProblems ''News API error: '' (nr_errors newsResponse) st1
              in case nr_data newsResponse of
                   None \<Rightarrow> (st2, None)
                 | Some stories \<Rightarrow> pushStories env stories st2))"

text \<open>
  The two \<open>catch\<close> clauses. Each builds its message from the text of the caught value,
  and throws what that conversion throws.
\<close>

definition newsCatch :: "Thrown \<Rightarrow> Block" where
  "newsCatch err st =
     (case errText err of
        Inl thrownByText \<Rightarrow> (st, Some thrownByText)
      | Inr msg \<Rightarrow>
          (pushErrors [''News search failed: '' @ msg @ ''. Falling back to post search.''] st,
           None))"

definition postOptions :: "SearchParams \<Rightarrow> string \<Rightarrow> PostOptions" where
  "postOptions params startTime =
     \<lparr> po_startTime = startTime,
       po_maxResults = p_max params,
       po_sortOrder = ''relevancy'',
       po_tweetFields = [''created_at'', ''author_id'', ''public_metrics'', ''source'', ''entities''],
       po_userFields = [''name'', ''username'', ''verified'', ''profile_image_url''],
       po_expansions = [''author_id''] \<rparr>"

text \<open>The body of the second \<open>try\<close>.\<close>

definition postBody :: "Env \<Rightarrow> Client \<Rightarrow> SearchParams \<Rightarrow> Block" where
  "postBody env client params st =
     (let postQuery = buildPostQuery (p_queries params) (p_lang params) (p_raw params)
      in case startTimeIso env (p_days params) of
           None \<Rightarrow> (st, Some rangeError)
         | Some startTime \<Rightarrow>
             (let opts = postOptions params startTime;
                  st1 = st\<lparr>st_calls := st_calls st @ [PostsSearchRecent postQuery opts]\<rparr>
              in case posts_searchRecent client postQuery opts of
                   Inl err \<Rightarrow> (st1, Some err)
                 | Inr postResponse \<Rightarrow>
                     (let st2 = reportProblems ''Posts API error: '' (pr_errors postResponse) st1;
                          userMap = buildUserMap (pr_includes postResponse)
                      in case pr_data postResponse of
                           None \<Rightarrow> (st2, None)
                         | Some tweets \<Rightarrow>
                             (st2\<lparr>st_posts :=
                                    js_sort compareFn
                                      (st_posts st2 @ map (postOfTweet userMap) tweets)\<rparr>,
                              None))))"

definition postCatch :: "Thrown \<Rightarrow> Block" where
  "postCatch err st =
     (case errText err of
        Inl thrownByText \<Rightarrow> (st, Some thrownByText)
      | Inr msg \<Rightarrow> (pushErrors [''Post search failed: '' @ msg] st, None))"

definition initialState :: State where
  "initialState = \<lparr> st_errors = [], st_news = [], st_posts = [], st_calls = [] \<rparr>"

text \<open>The two \<open>try\<close> statements, each with its \<open>catch\<close> clause.\<close>

definition newsPhase :: "Env \<Rightarrow> Client \<Rightarrow> SearchParams \<Rightarrow> Block" where
  "newsPhase env client params = tryCatch (newsBody env client params) newsCatch"

definition postPhase :: "Env \<Rightarrow> Client \<Rightarrow> SearchParams \<Rightarrow> Block" where
  "postPhase env client params = tryCatch (postBody env client params) postCatch"

text \<open>The statements of \<open>searchNews\<close> before its \<open>return\<close>.\<close>

definition searchNewsRun :: "Env \<Rightarrow> Client \<Rightarrow> SearchParams \<Rightarrow> State \<times> Thrown option" where
  "searchNewsRun env client params =
     andThen
       (newsPhase env client params)
       (\<lambda>st. if p_posts params \<or> length (st_news st) = 0
             then postPhase env client params st
             else (st, None))
       initialState"

text \<open>\<open>searchNews\<close>: the returned output (\<open>Inr\<close>), or the value thrown out of it (\<open>Inl\<close>).\<close>

definition searchNews :: "Env \<Rightarrow> Client \<Rightarrow> SearchParams \<Rightarrow> Thrown + SearchOutput" where
  "searchNews env client params =
     (case searchNewsRun env client params of
        (st, Some err) \<Rightarrow> Inl err
      | (st, None) \<Rightarrow>
          (let queryLabel = js_join '' + '' (p_queries params)
           in Inr \<lparr> query = queryLabel, news = st_news st, posts = st_posts st,
                    errors = st_errors st \<rparr>))"

text \<open>The endpoint calls one run of \<open>searchNews\<close> makes.\<close>

definition searchNewsCalls :: "Env \<Rightarrow> Client \<Rightarrow> SearchParams \<Rightarrow> Call list" where
  "searchNewsCalls env client params = st_calls (fst (searchNewsRun env client params))"

fun isPostsCall :: "Call \<Rightarrow> bool" where
  "isPostsCall (PostsSearchRecent q opts) = True"
| "isPostsCall (NewsSearch q opts) = False"

text \<open>Whether a run invoked the post-search endpoint.\<close>

definition postsInvoked :: "Env \<Rightarrow> Client \<Rightarrow> SearchParams \<Rightarrow> bool" where
  "postsInvoked env client params = list_ex isPostsCall (searchNewsCalls env client params)"

section \<open>Sample inputs\<close>

text \<open>A clock that converts one known time stamp and always forms the start time.\<close>

definition sampleEnv :: Env where
  "sampleEnv =
     \<lparr> msToIso = (\<lambda>s. if s = ''1700000000000'' then Some ''2023-11-14T22:13:20.000Z'' else None),
       startTimeIso = (\<lambda>d. Some ''2026-11-02T09:00:00.000Z'') \<rparr>"

definition sampleParams :: "bool \<Rightarrow> SearchParams" where
  "sampleParams withPosts =
     \<lparr> p_queries = [''gold'', ''silver''], p_days = 1, p_max = 10, p_lang = ''en'',
       p_raw = False, p_posts = withPosts \<rparr>"

definition bareStory :: Story where
  "bareStory =
     \<lparr> story_restId = None, story_name = None, story_summary = None, story_hook = None,
       story_category = None, story_keywords = None, story_lastUpdatedAtMs = None \<rparr>"

definition goldStory :: Story where
  "goldStory =
     \<lparr> story_restId = Some ''n1'', story_name = Some ''Gold rallies'',
       story_summary = Some ''Gold rose.'', story_hook = None,
       story_category = Some ''Business'', story_keywords = Some [''gold''],
       story_lastUpdatedAtMs = Some ''1700000000000'' \<rparr>"

definition sampleTweet :: "string \<Rightarrow> string \<Rightarrow> int \<Rightarrow> int \<Rightarrow> int \<Rightarrow> Tweet" where
  "sampleTweet tid author l rt rp =
     \<lparr> tweet_id = Some tid, tweet_text = Some ''gold news https://t.co/x'',
       tweet_authorId = Some author, tweet_createdAt = Some ''2026-11-02T08:00:00.000Z'',
       tweet_publicMetrics =
         Some \<lparr> like_count = Some l, retweet_count = Some rt, reply_count = Some rp \<rparr> \<rparr>"

definition bareTweet :: Tweet where
  "bareTweet =
     \<lparr> tweet_id = None, tweet_text = None, tweet_authorId = None, tweet_createdAt = None,
       tweet_publicMetrics = None \<rparr>"

definition sampleTweets :: "Tweet list" where
  "sampleTweets =
     [sampleTweet ''t1'' ''u1'' 10 0 0, sampleTweet ''t2'' ''u9'' 0 5 0,
      sampleTweet ''t3'' ''u9'' 1 1 100, sampleTweet ''t4'' ''u9'' 10 0 0, bareTweet]"

definition sampleIncludes :: "Includes option" where
  "sampleIncludes =
     Some \<lparr> inc_users = Some [\<lparr> user_id = ''u1'', user_name = ''Ann'', user_username = ''ann'',
                                user_verified = Some True \<rparr>] \<rparr>"

definition samplePostResponse :: PostResponse where
  "samplePostResponse =
     \<lparr> pr_errors = Some [Problem ''[503]''], pr_includes = sampleIncludes,
       pr_data = Some sampleTweets \<rparr>"

definition sampleNewsResponse :: NewsResponse where
  "sampleNewsResponse =
     \<lparr> nr_errors = Some [Problem ''[429]''], nr_data = Some [goldStory, bareStory] \<rparr>"

definition timedOut :: Thrown where
  "timedOut = Thrown (Some (Text ''timeout'')) (Text ''Error: timeout'')"

text \<open>
  A rejection with a value that has no message and no text, such as
  \<open>Object.create(null)\<close>: \<open>String\<close> of it throws a \<open>TypeError\<close>.
\<close>

definition noPrimitive :: Thrown where
  "noPrimitive =
     Thrown (Some (Text ''Cannot convert object to primitive value''))
       (Text ''TypeError: Cannot convert object to primitive value'')"

definition noTextRejection :: Thrown where
  "noTextRejection = Thrown None (Throws noPrimitive)"

text \<open>Two posts whose scores differ only beyond the precision of a double.\<close>

definition hugeTweets :: "Tweet list" where
  "hugeTweets =
     [sampleTweet ''b'' ''u9'' 4503599627370496 0 0, sampleTweet ''a'' ''u9'' 4503599627370496 0 1]"

definition hugePostResponse :: PostResponse where
  "hugePostResponse = \<lparr> pr_errors = None, pr_includes = None, pr_data = Some hugeTweets \<rparr>"

definition storyWithBadStamp :: Story where
  "storyWithBadStamp = bareStory\<lparr>story_lastUpdatedAtMs := Some ''soon''\<rparr>"

definition partNewsResponse :: NewsResponse where
  "partNewsResponse =
     \<lparr> nr_errors = None, nr_data = Some [goldStory, storyWithBadStamp, bareStory] \<rparr>"

text \<open>A client that answers every call of an endpoint in the given way.\<close>

definition sampleClient :: "Thrown + NewsResponse \<Rightarrow> Thrown + PostResponse \<Rightarrow> Client" where
  "sampleClient newsAnswer postsAnswer =
     \<lparr> news_search = (\<lambda>q opts. newsAnswer), posts_searchRecent = (\<lambda>q opts. postsAnswer) \<rparr>"

section \<open>Properties of the query builder\<close>

lemma js_join_Cons: "js_join sep (x # xs) = x @ concat (map (\<lambda>y. sep @ y) xs)"
  by (induction xs arbitrary: x) auto

text \<open>
  Claim C4. For a non-empty list of terms, the combined expression of \<open>buildPostQuery\<close>
  is the single term verbatim when there is exactly one term, with no parentheses added;
  otherwise it is every term wrapped in parentheses, joined with \<open>" OR "\<close> in input
  order: the first term in parentheses, then \<open>" OR ("\<close>, the term and \<open>")"\<close> for each
  further term.
\<close>

theorem combined_terms:
  assumes "queries \<noteq> []"
  shows "(length queries = 1 \<longrightarrow> combined queries = hd queries)
       \<and> (length queries \<noteq> 1 \<longrightarrow>
            combined queries = js_join '' OR '' (map (\<lambda>q. ''('' @ q @ '')'') queries)
          \<and> combined queries =
              ''('' @ hd queries @ '')'' @ concat (map (\<lambda>q. '' OR ('' @ q @ '')'') (tl queries)))"
proof (cases queries)
  case Nil
  with assms show ?thesis by simp
next
  case (Cons q qs)
  have one: "length queries = 1 \<Longrightarrow> combined queries = hd queries"
    using Cons by (simp add: combined_def)
  have "concat (map ((\<lambda>y. '' OR '' @ y) \<circ> (\<lambda>q. ''('' @ q @ '')'')) qs)
          = concat (map (\<lambda>q. '' OR ('' @ q @ '')'') qs)"
    by (rule arg_cong [where f = concat]) (simp add: comp_def)
  then have many: "length queries \<noteq> 1 \<Longrightarrow>
      combined queries = ''('' @ hd queries @ '')'' @ concat (map (\<lambda>q. '' OR ('' @ q @ '')'') (tl queries))"
    using Cons by (simp add: combined_def js_join_Cons)
  show ?thesis using one many by (simp add: combined_def)
qed

theorem combined_terms_witness:
  "combined [''gold prices''] = ''gold prices''
   \<and> combined [''a b'', ''c''] = ''(a b) OR (c)''"
  using combined_terms [of "[''gold prices'']"] combined_terms [of "[''a b'', ''c'']"]
  by simp

text \<open>
  Claim C5. In raw mode \<open>buildPostQuery\<close> returns the combined expression unmodified.
  Otherwise it returns the combined expression, a space, and the five filter tokens
  separated by single spaces in the fixed order: no reposts, no replies, has a link, no
  promotion-only content, the given language code.
\<close>

theorem buildPostQuery_raw_and_filters:
  "buildPostQuery queries lang True = combined queries
   \<and> buildPostQuery queries lang False =
       combined queries @ '' -is:retweet -is:reply has:links -is:nullcast lang:'' @ lang
   \<and> buildPostQuery queries lang False =
       combined queries @ '' '' @
         js_join '' '' [''-is:retweet'', ''-is:reply'', ''has:links'', ''-is:nullcast'', ''lang:'' @ lang]"
  by (simp add: buildPostQuery_def filters_def)

theorem buildPostQuery_raw_and_filters_witness:
  "buildPostQuery [''gold'', ''silver''] ''en'' False
     = ''(gold) OR (silver) -is:retweet -is:reply has:links -is:nullcast lang:en''
   \<and> buildPostQuery [''gold'', ''silver''] ''en'' True = ''(gold) OR (silver)''
   \<and> buildPostQuery [''gold''] ''en'' True = ''gold''"
proof -
  have c2: "combined [''gold'', ''silver''] = ''(gold) OR (silver)''"
    and c1: "combined [''gold''] = ''gold''"
    by (simp_all add: combined_def)
  show ?thesis
    using buildPostQuery_raw_and_filters [of "[''gold'', ''silver'']" "''en''"]
      buildPostQuery_raw_and_filters [of "[''gold'']" "''en''"]
    by (simp add: c1 c2)
qed

text \<open>
  Claim C6. \<open>buildNewsQuery\<close> joins the terms with \<open>" OR "\<close> whatever their number:
  the result is the first term followed by \<open>" OR "\<close> and the term for each further one,
  with nothing else added (no parentheses, no filters); it takes no raw flag. A single
  term is returned as it is and no term gives the empty text.
\<close>

theorem buildNewsQuery_plain_join:
  "buildNewsQuery [] = []
   \<and> buildNewsQuery [q] = q
   \<and> buildNewsQuery (q # qs) = q @ concat (map (\<lambda>t. '' OR '' @ t) qs)"
  by (simp add: buildNewsQuery_def js_join_Cons)

theorem buildNewsQuery_plain_join_witness:
  "buildNewsQuery [''gold'', ''silver'', ''(x)''] = ''gold OR silver OR (x)''"
  using buildNewsQuery_plain_join [of "''gold''" "[''silver'', ''(x)'']"]
  by simp

section \<open>Properties of the presenter helpers\<close>

text \<open>
  Claim C8. For a time stamp that parses to a time not after now, the relative age is
  formed by floor division of the elapsed milliseconds: below 60 minutes the floor of
  the elapsed minutes and \<open>m ago\<close>, below 24 hours the floor of the elapsed hours and
  \<open>h ago\<close>, otherwise the floor of the elapsed days and \<open>d ago\<close>.
\<close>

theorem timeAgo_floor:
  assumes "isoDate \<noteq> []" and "parse isoDate = Some t" and "t \<le> now"
  shows "timeAgo now parse isoDate =
           (if now - t < 60 * 60000 then string_of_int ((now - t) div 60000) @ ''m ago''
            else if now - t < 24 * 3600000 then string_of_int ((now - t) div 3600000) @ ''h ago''
            else string_of_int ((now - t) div 86400000) @ ''d ago'')"
proof -
  define age where "age = now - t"
  have h: "age div 60000 div 60 = age div 3600000"
    by (simp add: zdiv_zmult2_eq [symmetric])
  have d: "age div 60000 div 60 div 24 = age div 86400000"
    by (simp add: zdiv_zmult2_eq [symmetric])
  have m60: "age div 60000 < 60 \<longleftrightarrow> age < 60 * 60000" by linarith
  have h24: "age div 3600000 < 24 \<longleftrightarrow> age < 24 * 3600000" by linarith
  show ?thesis
    using assms h d m60 h24 unfolding timeAgo_def age_def
    by (simp add: Let_def)
qed

theorem timeAgo_floor_witness:
  "timeAgo 5400000 (\<lambda>s. Some 0) ''1970-01-01T00:00:00.000Z'' = ''1h ago''
   \<and> timeAgo 180000000 (\<lambda>s. Some 0) ''1970-01-01T00:00:00.000Z'' = ''2d ago''
   \<and> timeAgo 1800000 (\<lambda>s. Some 0) ''1970-01-01T00:00:00.000Z'' = ''30m ago''"
proof -
  have s1: "string_of_int 1 = ''1''" and s2: "string_of_int 2 = ''2''"
    and s30: "string_of_int 30 = ''30''" by code_simp+
  show ?thesis
    using timeAgo_floor [of "''1970-01-01T00:00:00.000Z''" "\<lambda>s. Some 0" 0 5400000]
      timeAgo_floor [of "''1970-01-01T00:00:00.000Z''" "\<lambda>s. Some 0" 0 180000000]
      timeAgo_floor [of "''1970-01-01T00:00:00.000Z''" "\<lambda>s. Some 0" 0 1800000]
    by (simp add: s1 s2 s30)
qed

lemma split_ws_nonempty: "split_ws s \<noteq> []"
  by (subst split_ws.simps) (simp add: Let_def)

lemma wrapLoop_keeps_lines:
  "\<exists>more. fst (wrapLoop width ws (ls, cur)) = ls @ more"
proof (induction ws arbitrary: ls cur)
  case Nil
  then show ?case by simp
next
  case (Cons w ws)
  show ?case
  proof (cases "int (length cur) + int (length w) + 1 > width")
    case True
    from Cons [of "ls @ [cur]" w] obtain more
      where "fst (wrapLoop width ws (ls @ [cur], w)) = (ls @ [cur]) @ more" by blast
    with True show ?thesis by simp
  next
    case False
    with Cons show ?thesis by simp
  qed
qed

text \<open>
  What holds of the output lines for a width that is not negative: a line is within the
  width or is a single word of the text.
\<close>

lemma wrapLoop_lines_bounded:
  assumes "0 \<le> width"
    and "\<forall>l \<in> set ls. int (length l) \<le> width \<or> l \<in> set ws0"
    and "int (length cur) \<le> width \<or> cur \<in> set ws0"
    and "set ws \<subseteq> set ws0"
  shows "(\<forall>l \<in> set (fst (wrapLoop width ws (ls, cur))). int (length l) \<le> width \<or> l \<in> set ws0)
       \<and> (int (length (snd (wrapLoop width ws (ls, cur)))) \<le> width
          \<or> snd (wrapLoop width ws (ls, cur)) \<in> set ws0)"
  using assms
proof (induction ws arbitrary: ls cur)
  case Nil
  then show ?case by simp
next
  case (Cons w ws)
  show ?case
  proof (cases "int (length cur) + int (length w) + 1 > width")
    case True
    have "(\<forall>l \<in> set (fst (wrapLoop width ws (ls @ [cur], w))). int (length l) \<le> width \<or> l \<in> set ws0)
       \<and> (int (length (snd (wrapLoop width ws (ls @ [cur], w)))) \<le> width
          \<or> snd (wrapLoop width ws (ls @ [cur], w)) \<in> set ws0)"
      using Cons.prems by (intro Cons.IH) auto
    with True show ?thesis by simp
  next
    case False
    let ?c = "if cur \<noteq> [] then cur @ '' '' @ w else w"
    have len: "int (length ?c) \<le> width" using False by auto
    have "(\<forall>l \<in> set (fst (wrapLoop width ws (ls, ?c))). int (length l) \<le> width \<or> l \<in> set ws0)
       \<and> (int (length (snd (wrapLoop width ws (ls, ?c)))) \<le> width
          \<or> snd (wrapLoop width ws (ls, ?c)) \<in> set ws0)"
      using Cons.prems len by (intro Cons.IH) auto
    with False show ?thesis by simp
  qed
qed

lemma wordWrap_lines_bounded:
  assumes "0 \<le> width" and "l \<in> set (wordWrap text width)"
  shows "int (length l) \<le> width \<or> l \<in> set (split_ws text)"
proof -
  obtain ls cur where r: "wrapLoop width (split_ws text) ([], []) = (ls, cur)"
    by (cases "wrapLoop width (split_ws text) ([], [])")
  have "(\<forall>l \<in> set ls. int (length l) \<le> width \<or> l \<in> set (split_ws text))
      \<and> (int (length cur) \<le> width \<or> cur \<in> set (split_ws text))"
    using wrapLoop_lines_bounded [of width "[]" "split_ws text" "[]" "split_ws text"] assms(1) r
    by simp
  then show ?thesis
    using assms(2) r by (auto simp add: wordWrap_def split: if_splits)
qed

text \<open>
  Claim C9, evaluated on the code. The text \<open>abcde fg\<close> wrapped at width 5: the first
  word fits the width exactly, so adding it to the empty current line would not exceed
  the width, and yet \<open>wordWrap\<close> starts a new line before it: the empty current line is
  pushed, and the output begins with an empty line that greedy word-packing does not
  produce.
\<close>

theorem wordWrap_exact_width_first_word:
  "wordWrap ''abcde fg'' 5 = ['''', ''abcde'', ''fg'']"
  by code_simp

text \<open>
  Claim C10. When the first word of the text is at least as long as the width, the first
  output line of \<open>wordWrap\<close> is the empty text: the break test counts the separator
  even when the current line is empty, so the empty current line is pushed before that
  word.
\<close>

theorem wordWrap_first_line_empty:
  assumes "width \<le> int (length (hd (split_ws text)))"
  shows "wordWrap text width \<noteq> [] \<and> hd (wordWrap text width) = []"
proof -
  obtain w ws where sp: "split_ws text = w # ws"
    using split_ws_nonempty [of "text"] by (cases "split_ws text") auto
  with assms have big: "int (length ([]::string)) + int (length w) + 1 > width" by simp
  obtain more where m: "fst (wrapLoop width ws ([[]], w)) = [[]] @ more"
    using wrapLoop_keeps_lines [of width ws "[[]]" w] by blast
  obtain ls cur where r: "wrapLoop width ws ([[]], w) = (ls, cur)"
    by (cases "wrapLoop width ws ([[]], w)")
  with m have ls: "ls = [] # more" by simp
  have "wrapLoop width (split_ws text) ([], []) = (ls, cur)"
    using sp big r by simp
  then show ?thesis by (simp add: wordWrap_def ls)
qed

theorem wordWrap_first_line_empty_witness:
  "wordWrap ''abcdefgh xy'' 5 = ['''', ''abcdefgh'', ''xy'']
   \<and> hd (wordWrap ''abcdefgh xy'' 5) = ''''"
proof -
  have sp: "split_ws ''abcdefgh xy'' = [''abcdefgh'', ''xy'']" by code_simp
  have h: "(5::int) \<le> int (length (hd (split_ws ''abcdefgh xy'')))" by (simp add: sp)
  have v: "wordWrap ''abcdefgh xy'' 5 = ['''', ''abcdefgh'', ''xy'']" by code_simp
  show ?thesis using wordWrap_first_line_empty [OF h] v by simp
qed

section \<open>Properties of the ranking\<close>

lemma dropBits_small: "m < 9007199254740992 \<Longrightarrow> dropBits m = 0"
  by (subst dropBits.simps) simp

lemma roundDouble_exact: "\<bar>x\<bar> < 9007199254740992 \<Longrightarrow> roundDouble x = x"
  by (simp add: roundDouble_def Let_def dropBits_small mult_sgn_abs)

lemma score_exact:
  assumes "\<bar>likes p\<bar> * 2 + \<bar>reposts p\<bar> * 3 + \<bar>replies p\<bar> < 4503599627370496"
  shows "score p = likes p * 2 + reposts p * 3 + replies p"
proof -
  have a1: "\<bar>likes p * 2\<bar> < 9007199254740992" using assms by linarith
  have a2: "\<bar>reposts p * 3\<bar> < 9007199254740992" using assms by linarith
  have a3: "\<bar>likes p * 2 + reposts p * 3\<bar> < 9007199254740992" using assms by linarith
  have a4: "\<bar>likes p * 2 + reposts p * 3 + replies p\<bar> < 9007199254740992"
    using assms by linarith
  show ?thesis
    by (simp add: score_def roundDouble_exact [OF a1] roundDouble_exact [OF a2]
        roundDouble_exact [OF a3] roundDouble_exact [OF a4])
qed

lemma score_bound:
  assumes "\<bar>likes p\<bar> * 2 + \<bar>reposts p\<bar> * 3 + \<bar>replies p\<bar> < 4503599627370496"
  shows "\<bar>likes p * 2 + reposts p * 3 + replies p\<bar> < 4503599627370496"
  using assms by linarith

lemma compareFn_le:
  assumes "\<bar>likes a\<bar> * 2 + \<bar>reposts a\<bar> * 3 + \<bar>replies a\<bar> < 4503599627370496"
    and "\<bar>likes b\<bar> * 2 + \<bar>reposts b\<bar> * 3 + \<bar>replies b\<bar> < 4503599627370496"
  shows "compareFn a b \<le> 0 \<longleftrightarrow>
           likes b * 2 + reposts b * 3 + replies b \<le> likes a * 2 + reposts a * 3 + replies a"
proof -
  have d: "\<bar>(likes b * 2 + reposts b * 3 + replies b) - (likes a * 2 + reposts a * 3 + replies a)\<bar>
             < 9007199254740992"
    using score_bound [OF assms(1)] score_bound [OF assms(2)] by linarith
  show ?thesis
    unfolding compareFn_def Let_def score_exact [OF assms(1)] score_exact [OF assms(2)]
      roundDouble_exact [OF d]
    by linarith
qed

lemma js_sort_Cons: "js_sort cmp (x # xs) = sortInsert cmp x (js_sort cmp xs)"
  by (simp add: js_sort_def)

lemma js_sort_Nil: "js_sort cmp [] = []"
  by (simp add: js_sort_def)

lemma set_sortInsert: "set (sortInsert cmp x ys) = insert x (set ys)"
  by (induction ys) auto

lemma set_js_sort: "set (js_sort cmp xs) = set xs"
  by (induction xs) (simp_all add: js_sort_Nil js_sort_Cons set_sortInsert)

lemma length_sortInsert: "length (sortInsert cmp x ys) = Suc (length ys)"
  by (induction ys) auto

lemma length_js_sort: "length (js_sort cmp xs) = length xs"
  by (induction xs) (simp_all add: js_sort_Nil js_sort_Cons length_sortInsert)

lemma sorted_sortInsert:
  assumes "\<bar>likes x\<bar> * 2 + \<bar>reposts x\<bar> * 3 + \<bar>replies x\<bar> < 4503599627370496"
    and "\<forall>y \<in> set ys. \<bar>likes y\<bar> * 2 + \<bar>reposts y\<bar> * 3 + \<bar>replies y\<bar> < 4503599627370496"
    and "sorted_wrt (\<lambda>a b. likes b * 2 + reposts b * 3 + replies b
                            \<le> likes a * 2 + reposts a * 3 + replies a) ys"
  shows "sorted_wrt (\<lambda>a b. likes b * 2 + reposts b * 3 + replies b
                            \<le> likes a * 2 + reposts a * 3 + replies a)
           (sortInsert compareFn x ys)"
  using assms(2,3)
proof (induction ys)
  case Nil
  then show ?case by simp
next
  case (Cons y ys)
  have y: "\<bar>likes y\<bar> * 2 + \<bar>reposts y\<bar> * 3 + \<bar>replies y\<bar> < 4503599627370496"
    using Cons.prems(1) by simp
  note c = compareFn_le [OF assms(1) y]
  show ?case
  proof (cases "compareFn x y \<le> 0")
    case True
    with Cons.prems c show ?thesis by force
  next
    case False
    with Cons c show ?thesis by (auto simp: set_sortInsert)
  qed
qed

lemma sorted_js_sort:
  assumes "\<forall>y \<in> set xs. \<bar>likes y\<bar> * 2 + \<bar>reposts y\<bar> * 3 + \<bar>replies y\<bar> < 4503599627370496"
  shows "sorted_wrt (\<lambda>a b. likes b * 2 + reposts b * 3 + replies b
                            \<le> likes a * 2 + reposts a * 3 + replies a)
           (js_sort compareFn xs)"
  using assms
proof (induction xs)
  case Nil
  then show ?case by (simp add: js_sort_Nil)
next
  case (Cons x xs)
  then show ?case
    by (simp add: js_sort_Cons sorted_sortInsert set_js_sort)
qed

lemma filter_sortInsert:
  assumes "\<bar>likes x\<bar> * 2 + \<bar>reposts x\<bar> * 3 + \<bar>replies x\<bar> < 4503599627370496"
    and "\<forall>y \<in> set ys. \<bar>likes y\<bar> * 2 + \<bar>reposts y\<bar> * 3 + \<bar>replies y\<bar> < 4503599627370496"
  shows "filter (\<lambda>p. likes p * 2 + reposts p * 3 + replies p = k) (sortInsert compareFn x ys) =
     (if likes x * 2 + reposts x * 3 + replies x = k
      then x # filter (\<lambda>p. likes p * 2 + reposts p * 3 + replies p = k) ys
      else filter (\<lambda>p. likes p * 2 + reposts p * 3 + replies p = k) ys)"
  using assms(2)
proof (induction ys)
  case Nil
  then show ?case by simp
next
  case (Cons y ys)
  have y: "\<bar>likes y\<bar> * 2 + \<bar>reposts y\<bar> * 3 + \<bar>replies y\<bar> < 4503599627370496"
    using Cons.prems by simp
  note c = compareFn_le [OF assms(1) y]
  show ?case
  proof (cases "compareFn x y \<le> 0")
    case True
    then show ?thesis by simp
  next
    case False
    with Cons c show ?thesis by auto
  qed
qed

lemma filter_js_sort:
  assumes "\<forall>y \<in> set xs. \<bar>likes y\<bar> * 2 + \<bar>reposts y\<bar> * 3 + \<bar>replies y\<bar> < 4503599627370496"
  shows "filter (\<lambda>p. likes p * 2 + reposts p * 3 + replies p = k) (js_sort compareFn xs) =
         filter (\<lambda>p. likes p * 2 + reposts p * 3 + replies p = k) xs"
  using assms
proof (induction xs)
  case Nil
  then show ?case by (simp add: js_sort_Nil)
next
  case (Cons x xs)
  then show ?case
    by (simp add: js_sort_Cons filter_sortInsert set_js_sort)
qed

section \<open>Properties of the orchestrator\<close>

lemma reportProblems_fields [simp]:
  "st_news (reportProblems pre errs st) = st_news st"
  "st_posts (reportProblems pre errs st) = st_posts st"
  "st_calls (reportProblems pre errs st) = st_calls st"
  by (simp_all add: reportProblems_def pushErrors_def split: option.splits)

lemma pushErrors_fields [simp]:
  "st_news (pushErrors ms st) = st_news st"
  "st_posts (pushErrors ms st) = st_posts st"
  "st_calls (pushErrors ms st) = st_calls st"
  "st_errors (pushErrors ms st) = st_errors st @ ms"
  by (simp_all add: pushErrors_def)

lemma reportProblems_errors:
  "st_errors (reportProblems pre errs st) =
     st_errors st @ (case errs of None \<Rightarrow> [] | Some es \<Rightarrow> map (\<lambda>err. pre @ JSON_stringify err) es)"
  by (simp add: reportProblems_def split: option.splits)

lemma errText_rangeError: "errText rangeError = Inr ''Invalid time value''"
  by (simp add: rangeError_def errText_def)

lemma newsOfStory_throws: "newsOfStory env s = Inl e \<Longrightarrow> e = rangeError"
  by (auto simp: newsOfStory_def split: option.splits if_splits sum.splits)

text \<open>The loop over the stories keeps what it pushed before a conversion throws.\<close>

lemma pushStories_eq:
  "pushStories env ss st =
     (st\<lparr>st_news := st_news st @
            map (\<lambda>s. projr (newsOfStory env s))
              (takeWhile (\<lambda>s. \<not> isl (newsOfStory env s)) ss)\<rparr>,
      if list_all (\<lambda>s. \<not> isl (newsOfStory env s)) ss then None else Some rangeError)"
proof (induction ss arbitrary: st)
  case Nil
  then show ?case by simp
next
  case (Cons s ss)
  show ?case
  proof (cases "newsOfStory env s")
    case (Inl e)
    then show ?thesis using newsOfStory_throws [OF Inl] by simp
  next
    case (Inr n)
    then show ?thesis by (simp add: Cons.IH)
  qed
qed

text \<open>The news step, case by case.\<close>

lemma newsPhase_thrown:
  assumes "news_search client (buildNewsQuery (p_queries params)) (newsOptions params) = Inl err"
  shows "newsPhase env client params st =
     (case errText err of
        Inl thrownByText \<Rightarrow>
          (st\<lparr>st_calls := st_calls st @
                 [NewsSearch (buildNewsQuery (p_queries params)) (newsOptions params)]\<rparr>,
           Some thrownByText)
      | Inr msg \<Rightarrow>
          (pushErrors [''News search failed: '' @ msg @ ''. Falling back to post search.'']
             (st\<lparr>st_calls := st_calls st @
                 [NewsSearch (buildNewsQuery (p_queries params)) (newsOptions params)]\<rparr>),
           None))"
  using assms
  by (simp add: newsPhase_def tryCatch_def newsBody_def newsCatch_def Let_def split: sum.splits)

lemma newsPhase_response:
  assumes "news_search client (buildNewsQuery (p_queries params)) (newsOptions params) = Inr resp"
  shows "snd (newsPhase env client params st) = None"
    and "st_calls (fst (newsPhase env client params st)) =
           st_calls st @ [NewsSearch (buildNewsQuery (p_queries params)) (newsOptions params)]"
    and "st_posts (fst (newsPhase env client params st)) = st_posts st"
    and "st_news (fst (newsPhase env client params st)) =
           st_news st @
             (case nr_data resp of
                None \<Rightarrow> []
              | Some stories \<Rightarrow>
                  map (\<lambda>s. projr (newsOfStory env s))
                    (takeWhile (\<lambda>s. \<not> isl (newsOfStory env s)) stories))"
    and "st_errors (fst (newsPhase env client params st)) =
           st_errors st @
             (case nr_errors resp of
                None \<Rightarrow> []
              | Some es \<Rightarrow> map (\<lambda>err. ''News API error: '' @ JSON_stringify err) es) @
             (case nr_data resp of
                None \<Rightarrow> []
              | Some stories \<Rightarrow>
                  if list_all (\<lambda>s. \<not> isl (newsOfStory env s)) stories then []
                  else [''News search failed: Invalid time value. Falling back to post search.''])"
  using assms
  by (simp_all add: newsPhase_def tryCatch_def newsBody_def newsCatch_def Let_def pushStories_eq
      errText_rangeError reportProblems_errors split: option.splits)

lemma newsPhase_calls:
  "st_calls (fst (newsPhase env client params st)) =
     st_calls st @ [NewsSearch (buildNewsQuery (p_queries params)) (newsOptions params)]"
proof (cases "news_search client (buildNewsQuery (p_queries params)) (newsOptions params)")
  case (Inl err)
  then show ?thesis by (simp add: newsPhase_thrown split: sum.splits)
next
  case (Inr resp)
  then show ?thesis by (simp add: newsPhase_response)
qed

lemma newsPhase_posts: "st_posts (fst (newsPhase env client params st)) = st_posts st"
proof (cases "news_search client (buildNewsQuery (p_queries params)) (newsOptions params)")
  case (Inl err)
  then show ?thesis by (simp add: newsPhase_thrown split: sum.splits)
next
  case (Inr resp)
  then show ?thesis by (simp add: newsPhase_response)
qed

text \<open>The post step, case by case.\<close>

lemma postPhase_no_start:
  assumes "startTimeIso env (p_days params) = None"
  shows "postPhase env client params st =
           (pushErrors [''Post search failed: Invalid time value''] st, None)"
  using assms
  by (simp add: postPhase_def tryCatch_def postBody_def postCatch_def Let_def errText_rangeError)

lemma postPhase_thrown:
  assumes "startTimeIso env (p_days params) = Some start"
    and "posts_searchRecent client
           (buildPostQuery (p_queries params) (p_lang params) (p_raw params))
           (postOptions params start) = Inl err"
  shows "postPhase env client params st =
     (case errText err of
        Inl thrownByText \<Rightarrow>
          (st\<lparr>st_calls := st_calls st @
                 [PostsSearchRecent
                    (buildPostQuery (p_queries params) (p_lang params) (p_raw params))
                    (postOptions params start)]\<rparr>,
           Some thrownByText)
      | Inr msg \<Rightarrow>
          (pushErrors [''Post search failed: '' @ msg]
             (st\<lparr>st_calls := st_calls st @
                 [PostsSearchRecent
                    (buildPostQuery (p_queries params) (p_lang params) (p_raw params))
                    (postOptions params start)]\<rparr>),
           None))"
  using assms
  by (simp add: postPhase_def tryCatch_def postBody_def postCatch_def Let_def split: sum.splits)

lemma postPhase_response:
  assumes "startTimeIso env (p_days params) = Some start"
    and "posts_searchRecent client
           (buildPostQuery (p_queries params) (p_lang params) (p_raw params))
           (postOptions params start) = Inr resp"
  shows "snd (postPhase env client params st) = None"
    and "st_errors (fst (postPhase env client params st)) =
           st_errors st @ (case pr_errors resp of None \<Rightarrow> []
                           | Some es \<Rightarrow> map (\<lambda>err. ''Posts API error: '' @ JSON_stringify err) es)"
    and "st_posts (fst (postPhase env client params st)) =
           (case pr_data resp of
              None \<Rightarrow> st_posts st
            | Some tweets \<Rightarrow>
                js_sort compareFn
                  (st_posts st @ map (postOfTweet (buildUserMap (pr_includes resp))) tweets))"
  using assms
  by (simp_all add: postPhase_def tryCatch_def postBody_def postCatch_def Let_def
      reportProblems_errors split: option.splits)

lemma postPhase_news: "st_news (fst (postPhase env client params st)) = st_news st"
  by (simp add: postPhase_def tryCatch_def postCatch_def postBody_def Let_def
      split: prod.splits option.splits sum.splits)

lemma postPhase_calls:
  "st_calls (fst (postPhase env client params st)) =
     (case startTimeIso env (p_days params) of
        None \<Rightarrow> st_calls st
      | Some start \<Rightarrow>
          st_calls st @
            [PostsSearchRecent
               (buildPostQuery (p_queries params) (p_lang params) (p_raw params))
               (postOptions params start)])"
  by (simp add: postPhase_def tryCatch_def postCatch_def postBody_def Let_def
      split: prod.splits option.splits sum.splits)

lemma postPhase_errors_extend:
  "\<exists>more. st_errors (fst (postPhase env client params st)) = st_errors st @ more"
proof (cases "startTimeIso env (p_days params)")
  case None
  then show ?thesis by (simp add: postPhase_no_start)
next
  case (Some start)
  show ?thesis
  proof (cases "posts_searchRecent client
           (buildPostQuery (p_queries params) (p_lang params) (p_raw params))
           (postOptions params start)")
    case (Inl err)
    then show ?thesis using Some by (simp add: postPhase_thrown split: sum.splits)
  next
    case (Inr resp)
    then show ?thesis using Some by (simp add: postPhase_response)
  qed
qed

lemma postPhase_posts_cases:
  "st_posts (fst (postPhase env client params st)) = st_posts st
   \<or> (\<exists>start resp tweets.
        startTimeIso env (p_days params) = Some start
        \<and> posts_searchRecent client
             (buildPostQuery (p_queries params) (p_lang params) (p_raw params))
             (postOptions params start) = Inr resp
        \<and> pr_data resp = Some tweets
        \<and> st_posts (fst (postPhase env client params st)) =
            js_sort compareFn
              (st_posts st @ map (postOfTweet (buildUserMap (pr_includes resp))) tweets))"
proof (cases "startTimeIso env (p_days params)")
  case None
  then show ?thesis by (simp add: postPhase_no_start)
next
  case (Some start)
  show ?thesis
  proof (cases "posts_searchRecent client
           (buildPostQuery (p_queries params) (p_lang params) (p_raw params))
           (postOptions params start)")
    case (Inl err)
    then show ?thesis using Some by (simp add: postPhase_thrown split: sum.splits)
  next
    case (Inr resp)
    then show ?thesis using Some by (cases "pr_data resp") (simp_all add: postPhase_response)
  qed
qed

text \<open>The whole run.\<close>

lemma searchNewsRun_eq:
  "searchNewsRun env client params =
     (case newsPhase env client params initialState of
        (st, Some thrown) \<Rightarrow> (st, Some thrown)
      | (st, None) \<Rightarrow>
          if p_posts params \<or> st_news st = []
          then postPhase env client params st
          else (st, None))"
  by (simp add: searchNewsRun_def andThen_def split: prod.splits option.splits)

lemma run_after_news:
  assumes "snd (newsPhase env client params initialState) = None"
  shows "searchNewsRun env client params =
     (if p_posts params \<or> st_news (fst (newsPhase env client params initialState)) = []
      then postPhase env client params (fst (newsPhase env client params initialState))
      else (fst (newsPhase env client params initialState), None))"
  using assms
  by (cases "newsPhase env client params initialState") (simp add: searchNewsRun_eq)

lemma run_news_thrown:
  assumes "snd (newsPhase env client params initialState) = Some thrown"
  shows "searchNewsRun env client params = newsPhase env client params initialState"
  using assms
  by (cases "newsPhase env client params initialState") (simp add: searchNewsRun_eq)

lemma searchNews_Inr:
  "searchNews env client params = Inr out \<longleftrightarrow>
     snd (searchNewsRun env client params) = None
     \<and> out = \<lparr> query = js_join '' + '' (p_queries params),
               news = st_news (fst (searchNewsRun env client params)),
               posts = st_posts (fst (searchNewsRun env client params)),
               errors = st_errors (fst (searchNewsRun env client params)) \<rparr>"
  by (cases "searchNewsRun env client params")
     (auto simp add: searchNews_def Let_def split: option.splits)

lemma returned_news_normal:
  assumes "searchNews env client params = Inr out"
  shows "snd (newsPhase env client params initialState) = None"
proof (cases "snd (newsPhase env client params initialState)")
  case None
  then show ?thesis .
next
  case (Some thrown)
  then have "snd (searchNewsRun env client params) = Some thrown"
    by (simp add: run_news_thrown)
  with assms show ?thesis by (simp add: searchNews_Inr)
qed

lemma initial_fields:
  "st_posts initialState = []" "st_news initialState = []"
  "st_errors initialState = []" "st_calls initialState = []"
  by (simp_all add: initialState_def)

lemma postsInvoked_iff:
  "postsInvoked env client params \<longleftrightarrow>
     snd (newsPhase env client params initialState) = None
     \<and> (p_posts params \<or> st_news (fst (newsPhase env client params initialState)) = [])
     \<and> startTimeIso env (p_days params) \<noteq> None"
proof (cases "snd (newsPhase env client params initialState)")
  case (Some thrown)
  then show ?thesis
    by (simp add: postsInvoked_def searchNewsCalls_def run_news_thrown newsPhase_calls
        initial_fields)
next
  case None
  show ?thesis
    using None
    by (simp add: postsInvoked_def searchNewsCalls_def run_after_news newsPhase_calls
        postPhase_calls initial_fields split: option.splits)
qed

text \<open>
  Claim C3 as stated fails: the scores are computed in doubles. Two posts with
  \<open>2\<^sup>5\<^sup>2\<close> likes each, the second with one reply more, get the same score in the
  source, and the output keeps the order of the response although the second post has
  the higher score \<open>2 * likes + 3 * reposts + replies\<close>.
\<close>

theorem posts_ranked_beyond_precision_counterexample:
  "map post_id (posts (projr (searchNews sampleEnv
       (sampleClient (Inl timedOut) (Inr hugePostResponse)) (sampleParams False))))
     = [''b'', ''a'']
   \<and> map likes (posts (projr (searchNews sampleEnv
       (sampleClient (Inl timedOut) (Inr hugePostResponse)) (sampleParams False))))
     = [4503599627370496, 4503599627370496]
   \<and> map reposts (posts (projr (searchNews sampleEnv
       (sampleClient (Inl timedOut) (Inr hugePostResponse)) (sampleParams False))))
     = [0, 0]
   \<and> map replies (posts (projr (searchNews sampleEnv
       (sampleClient (Inl timedOut) (Inr hugePostResponse)) (sampleParams False))))
     = [0, 1]"
  by code_simp

text \<open>
  Claim C3, amended. For counters in the range where the arithmetic of the source is
  exact (\<open>2 * |likes| + 3 * |reposts| + |replies|\<close> below \<open>2\<^sup>5\<^sup>2\<close> for every post), the
  posts of the output are in descending order of the engagement score
  \<open>2 * likes + 3 * reposts + replies\<close>. When the post search ran and returned data,
  the posts of any one score are, in their order, the normalized posts of that score in
  the order of the server response: posts of equal score keep their relative order and
  none is lost or added.
\<close>

theorem posts_ranked_stably:
  assumes out: "searchNews env client params = Inr out"
    and exact: "\<forall>p \<in> set (posts out).
                  \<bar>likes p\<bar> * 2 + \<bar>reposts p\<bar> * 3 + \<bar>replies p\<bar> < 4503599627370496"
  shows "sorted_wrt (\<lambda>a b. likes b * 2 + reposts b * 3 + replies b
                            \<le> likes a * 2 + reposts a * 3 + replies a) (posts out)
       \<and> (\<forall>start resp tweets.
            (p_posts params \<or> news out = [])
            \<and> startTimeIso env (p_days params) = Some start
            \<and> posts_searchRecent client
                 (buildPostQuery (p_queries params) (p_lang params) (p_raw params))
                 (postOptions params start) = Inr resp
            \<and> pr_data resp = Some tweets
            \<longrightarrow> (\<forall>k. filter (\<lambda>p. likes p * 2 + reposts p * 3 + replies p = k) (posts out) =
                       filter (\<lambda>p. likes p * 2 + reposts p * 3 + replies p = k)
                         (map (postOfTweet (buildUserMap (pr_includes resp))) tweets)))"
proof -
  define st where "st = fst (newsPhase env client params initialState)"
  have nn: "snd (newsPhase env client params initialState) = None"
    using returned_news_normal [OF out] .
  note run = run_after_news [OF nn]
  from out have o: "out = \<lparr> query = js_join '' + '' (p_queries params),
               news = st_news (fst (searchNewsRun env client params)),
               posts = st_posts (fst (searchNewsRun env client params)),
               errors = st_errors (fst (searchNewsRun env client params)) \<rparr>"
    by (simp add: searchNews_Inr)
  have n: "news out = st_news st"
    by (simp add: o run postPhase_news st_def)
  have p0: "st_posts st = []"
    by (simp add: st_def newsPhase_posts initial_fields)
  show ?thesis
  proof (cases "p_posts params \<or> news out = []")
    case False
    with n have "\<not> (p_posts params \<or> st_news st = [])" by simp
    then have "searchNewsRun env client params = (st, None)"
      by (simp add: run st_def)
    then have "posts out = st_posts st" by (simp add: o)
    with p0 False show ?thesis by simp
  next
    case True
    with n have "p_posts params \<or> st_news st = []" by simp
    then have "searchNewsRun env client params = postPhase env client params st"
      by (simp add: run st_def)
    then have po: "posts out = st_posts (fst (postPhase env client params st))"
      by (simp add: o)
    have sorted: "sorted_wrt (\<lambda>a b. likes b * 2 + reposts b * 3 + replies b
                            \<le> likes a * 2 + reposts a * 3 + replies a) (posts out)"
    proof -
      from postPhase_posts_cases [of env client params st]
      consider "posts out = []"
        | xs where "posts out = js_sort compareFn xs"
        using po p0 by auto
      then show ?thesis
      proof cases
        case 1
        then show ?thesis by simp
      next
        case 2
        with exact have "\<forall>p \<in> set xs.
            \<bar>likes p\<bar> * 2 + \<bar>reposts p\<bar> * 3 + \<bar>replies p\<bar> < 4503599627370496"
          by (simp add: set_js_sort)
        then show ?thesis unfolding 2 by (rule sorted_js_sort)
      qed
    qed
    have stable: "filter (\<lambda>p. likes p * 2 + reposts p * 3 + replies p = k) (posts out) =
        filter (\<lambda>p. likes p * 2 + reposts p * 3 + replies p = k)
          (map (postOfTweet (buildUserMap (pr_includes resp))) tweets)"
      if s: "startTimeIso env (p_days params) = Some start"
        and r: "posts_searchRecent client
               (buildPostQuery (p_queries params) (p_lang params) (p_raw params))
               (postOptions params start) = Inr resp"
        and d: "pr_data resp = Some tweets"
      for start resp tweets k
    proof -
      have eq: "posts out =
          js_sort compareFn (map (postOfTweet (buildUserMap (pr_includes resp))) tweets)"
        by (simp add: po postPhase_response(3) [OF s r] d p0)
      with exact have "\<forall>p \<in> set (map (postOfTweet (buildUserMap (pr_includes resp))) tweets).
            \<bar>likes p\<bar> * 2 + \<bar>reposts p\<bar> * 3 + \<bar>replies p\<bar> < 4503599627370496"
        by (simp add: set_js_sort)
      then show ?thesis unfolding eq by (rule filter_js_sort)
    qed
    from sorted stable show ?thesis by blast
  qed
qed

theorem posts_ranked_stably_witness:
  "map post_id (posts (projr (searchNews sampleEnv
       (sampleClient (Inl timedOut) (Inr samplePostResponse)) (sampleParams False))))
     = [''t3'', ''t1'', ''t4'', ''t2'', '''']
   \<and> sorted_wrt (\<lambda>a b. likes b * 2 + reposts b * 3 + replies b
                         \<le> likes a * 2 + reposts a * 3 + replies a)
        (posts (projr (searchNews sampleEnv
           (sampleClient (Inl timedOut) (Inr samplePostResponse)) (sampleParams False))))
   \<and> filter (\<lambda>p. likes p * 2 + reposts p * 3 + replies p = 20)
        (posts (projr (searchNews sampleEnv
           (sampleClient (Inl timedOut) (Inr samplePostResponse)) (sampleParams False))))
     = filter (\<lambda>p. likes p * 2 + reposts p * 3 + replies p = 20)
         (map (postOfTweet (buildUserMap sampleIncludes)) sampleTweets)"
proof -
  let ?C = "sampleClient (Inl timedOut) (Inr samplePostResponse)"
  let ?P = "sampleParams False"
  let ?out = "projr (searchNews sampleEnv ?C ?P)"
  have "\<not> isl (searchNews sampleEnv ?C ?P)" by code_simp
  then have ret: "searchNews sampleEnv ?C ?P = Inr ?out" by simp
  have ids: "map post_id (posts ?out) = [''t3'', ''t1'', ''t4'', ''t2'', '''']" by code_simp
  have "list_all (\<lambda>p. \<bar>likes p\<bar> * 2 + \<bar>reposts p\<bar> * 3 + \<bar>replies p\<bar> < 4503599627370496)
          (posts ?out)"
    by code_simp
  then have ex: "\<forall>p \<in> set (posts ?out).
                  \<bar>likes p\<bar> * 2 + \<bar>reposts p\<bar> * 3 + \<bar>replies p\<bar> < 4503599627370496"
    by (simp add: list_all_iff)
  have n: "news ?out = []" by code_simp
  have s: "startTimeIso sampleEnv (p_days ?P) = Some ''2026-11-02T09:00:00.000Z''"
    by (simp add: sampleEnv_def)
  have c: "posts_searchRecent ?C (buildPostQuery (p_queries ?P) (p_lang ?P) (p_raw ?P))
             (postOptions ?P ''2026-11-02T09:00:00.000Z'') = Inr samplePostResponse"
    by (simp add: sampleClient_def)
  have d: "pr_data samplePostResponse = Some sampleTweets"
    and i: "pr_includes samplePostResponse = sampleIncludes"
    by (simp_all add: samplePostResponse_def)
  note ranked = posts_ranked_stably [OF ret ex]
  from ranked have sorted: "sorted_wrt (\<lambda>a b. likes b * 2 + reposts b * 3 + replies b
                         \<le> likes a * 2 + reposts a * 3 + replies a) (posts ?out)"
    by (rule conjunct1)
  have hyp: "(p_posts ?P \<or> news ?out = [])
      \<and> startTimeIso sampleEnv (p_days ?P) = Some ''2026-11-02T09:00:00.000Z''
      \<and> posts_searchRecent ?C (buildPostQuery (p_queries ?P) (p_lang ?P) (p_raw ?P))
             (postOptions ?P ''2026-11-02T09:00:00.000Z'') = Inr samplePostResponse
      \<and> pr_data samplePostResponse = Some sampleTweets"
    using n s c d by simp
  from ranked have "\<forall>start resp tweets.
            (p_posts ?P \<or> news ?out = [])
            \<and> startTimeIso sampleEnv (p_days ?P) = Some start
            \<and> posts_searchRecent ?C (buildPostQuery (p_queries ?P) (p_lang ?P) (p_raw ?P))
                 (postOptions ?P start) = Inr resp
            \<and> pr_data resp = Some tweets
            \<longrightarrow> (\<forall>k. filter (\<lambda>p. likes p * 2 + reposts p * 3 + replies p = k) (posts ?out) =
                       filter (\<lambda>p. likes p * 2 + reposts p * 3 + replies p = k)
                         (map (postOfTweet (buildUserMap (pr_includes resp))) tweets))"
    by (rule conjunct2)
  from this [rule_format, OF hyp, of 20]
  have stable: "filter (\<lambda>p. likes p * 2 + reposts p * 3 + replies p = 20) (posts ?out) =
      filter (\<lambda>p. likes p * 2 + reposts p * 3 + replies p = 20)
        (map (postOfTweet (buildUserMap sampleIncludes)) sampleTweets)"
    by (simp only: i)
  from ids sorted stable show ?thesis by (intro conjI)
qed



text \<open>
  Claim C2 as stated fails: the news call rejects with a value that has no text, the
  \<open>catch\<close> clause throws while it builds its message, and \<open>searchNews\<close> throws that
  instead of returning; the post search is not run.
\<close>

theorem searchNews_raises_counterexample:
  "searchNews sampleEnv (sampleClient (Inl noTextRejection) (Inr samplePostResponse))
     (sampleParams False) = Inl noPrimitive
   \<and> searchNewsCalls sampleEnv (sampleClient (Inl noTextRejection) (Inr samplePostResponse))
       (sampleParams False)
     = [NewsSearch ''gold OR silver'' \<lparr> no_maxResults = 10, no_maxAgeHours = 24 \<rparr>]"
  by code_simp

text \<open>
  Claim C2, amended. When every value an endpoint call rejects with has a text (its
  message, or \<open>String\<close> of it, converts without throwing), \<open>searchNews\<close> returns an
  output and throws nothing. A thrown news call becomes an error text, leaves no story
  and does not stop the post search; every error the news endpoint reports becomes an
  error text; the stories of a news response are returned whatever the post search
  does, up to the first one whose time stamp cannot be converted, and that failure
  becomes an error text. When the post search runs, a thrown call becomes the last
  error text, every error the endpoint reports becomes an error text, and the posts of
  the output are the normalized posts of the response, each once, in some order.
\<close>

theorem searchNews_returns_output:
  assumes textN:
      "\<forall>err. news_search client (buildNewsQuery (p_queries params)) (newsOptions params) = Inl err
         \<longrightarrow> \<not> isl (errText err)"
    and textP:
      "\<forall>start err. startTimeIso env (p_days params) = Some start
         \<and> posts_searchRecent client
              (buildPostQuery (p_queries params) (p_lang params) (p_raw params))
              (postOptions params start) = Inl err
         \<longrightarrow> \<not> isl (errText err)"
  shows "\<exists>out. searchNews env client params = Inr out
     \<and> query out = js_join '' + '' (p_queries params)
     \<and> (\<forall>err. news_search client (buildNewsQuery (p_queries params)) (newsOptions params) = Inl err
          \<longrightarrow> ''News search failed: '' @ projr (errText err) @ ''. Falling back to post search.''
                 \<in> set (errors out)
              \<and> news out = []
              \<and> postsInvoked env client params = (startTimeIso env (p_days params) \<noteq> None))
     \<and> (\<forall>resp es. news_search client (buildNewsQuery (p_queries params)) (newsOptions params) = Inr resp
            \<and> nr_errors resp = Some es
          \<longrightarrow> (\<forall>e \<in> set es. ''News API error: '' @ JSON_stringify e \<in> set (errors out)))
     \<and> (\<forall>resp stories.
            news_search client (buildNewsQuery (p_queries params)) (newsOptions params) = Inr resp
            \<and> nr_data resp = Some stories
          \<longrightarrow> news out =
                map (\<lambda>s. projr (newsOfStory env s))
                  (takeWhile (\<lambda>s. \<not> isl (newsOfStory env s)) stories)
              \<and> (\<not> list_all (\<lambda>s. \<not> isl (newsOfStory env s)) stories \<longrightarrow>
                   ''News search failed: Invalid time value. Falling back to post search.''
                      \<in> set (errors out)))
     \<and> (\<forall>start. (p_posts params \<or> news out = [])
            \<and> startTimeIso env (p_days params) = Some start
          \<longrightarrow> (case posts_searchRecent client
                       (buildPostQuery (p_queries params) (p_lang params) (p_raw params))
                       (postOptions params start) of
                 Inl err \<Rightarrow>
                   errors out \<noteq> []
                   \<and> last (errors out) = ''Post search failed: '' @ projr (errText err)
                   \<and> posts out = []
               | Inr resp \<Rightarrow>
                   (\<forall>es. pr_errors resp = Some es \<longrightarrow>
                      (\<forall>e \<in> set es. ''Posts API error: '' @ JSON_stringify e \<in> set (errors out)))
                   \<and> (\<forall>tweets. pr_data resp = Some tweets \<longrightarrow>
                        set (posts out) =
                          set (map (postOfTweet (buildUserMap (pr_includes resp))) tweets)
                        \<and> length (posts out) = length tweets)))
     \<and> ((p_posts params \<or> news out = []) \<and> startTimeIso env (p_days params) = None
          \<longrightarrow> errors out \<noteq> [] \<and> last (errors out) = ''Post search failed: Invalid time value'')"
proof -
  define st where "st = fst (newsPhase env client params initialState)"
  define run where "run = fst (searchNewsRun env client params)"
  define out where "out = \<lparr> query = js_join '' + '' (p_queries params), news = st_news run,
    posts = st_posts run, errors = st_errors run \<rparr>"
  have nn: "snd (newsPhase env client params initialState) = None"
  proof (cases "news_search client (buildNewsQuery (p_queries params)) (newsOptions params)")
    case (Inl err)
    with textN obtain msg where "errText err = Inr msg" by (cases "errText err") auto
    then show ?thesis by (simp add: newsPhase_thrown [OF Inl])
  next
    case (Inr resp)
    then show ?thesis by (rule newsPhase_response(1))
  qed
  have pn: "snd (postPhase env client params st) = None"
  proof (cases "startTimeIso env (p_days params)")
    case None
    then show ?thesis by (simp add: postPhase_no_start)
  next
    case (Some start)
    show ?thesis
    proof (cases "posts_searchRecent client
           (buildPostQuery (p_queries params) (p_lang params) (p_raw params))
           (postOptions params start)")
      case (Inl err)
      with textP Some obtain msg where "errText err = Inr msg" by (cases "errText err") auto
      then show ?thesis by (simp add: postPhase_thrown [OF Some Inl])
    next
      case (Inr resp)
      with Some show ?thesis by (rule postPhase_response(1))
    qed
  qed
  note whole = run_after_news [OF nn]
  have cond_run: "run = fst (postPhase env client params st)"
    if "p_posts params \<or> st_news st = []"
    using that by (simp add: run_def whole st_def)
  have other_run: "run = st" if "\<not> (p_posts params \<or> st_news st = [])"
    using that by (simp add: run_def whole st_def)
  have "snd (searchNewsRun env client params) = None"
    using pn by (simp add: whole st_def)
  then have ret: "searchNews env client params = Inr out"
    by (simp add: searchNews_Inr out_def run_def)
  have n: "news out = st_news st"
    by (cases "p_posts params \<or> st_news st = []")
       (simp_all add: out_def cond_run other_run postPhase_news)
  have e: "errors out = st_errors run" and p: "posts out = st_posts run"
    by (simp_all add: out_def)
  obtain more where more: "errors out = st_errors st @ more"
  proof (cases "p_posts params \<or> st_news st = []")
    case True
    with that postPhase_errors_extend [of env client params st] show ?thesis
      by (auto simp add: e cond_run)
  next
    case False
    with that [of "[]"] show ?thesis by (simp add: e other_run)
  qed
  have p0: "st_posts st = []"
    by (simp add: st_def newsPhase_posts initial_fields)
  have Q: "query out = js_join '' + '' (p_queries params)"
    by (simp add: out_def)
  have N1: "''News search failed: '' @ projr (errText err) @ ''. Falling back to post search.''
                 \<in> set (errors out)
              \<and> news out = []
              \<and> postsInvoked env client params = (startTimeIso env (p_days params) \<noteq> None)"
    if c: "news_search client (buildNewsQuery (p_queries params)) (newsOptions params) = Inl err"
    for err
  proof -
    from textN c obtain msg where m: "errText err = Inr msg" by (cases "errText err") auto
    have "st_errors st = [''News search failed: '' @ msg @ ''. Falling back to post search.'']"
      and "st_news st = []"
      by (simp_all add: st_def newsPhase_thrown [OF c] m initial_fields)
    then show ?thesis
      using nn by (simp add: more n m postsInvoked_iff st_def [symmetric])
  qed
  have N2: "\<forall>e \<in> set es. ''News API error: '' @ JSON_stringify e \<in> set (errors out)"
    if c: "news_search client (buildNewsQuery (p_queries params)) (newsOptions params) = Inr resp
        \<and> nr_errors resp = Some es" for resp es
  proof -
    from c have r: "news_search client (buildNewsQuery (p_queries params)) (newsOptions params)
        = Inr resp" and es: "nr_errors resp = Some es" by simp_all
    show ?thesis
      by (simp add: more st_def newsPhase_response(5) [OF r] es initial_fields)
  qed
  have N3: "news out =
                map (\<lambda>s. projr (newsOfStory env s))
                  (takeWhile (\<lambda>s. \<not> isl (newsOfStory env s)) stories)
              \<and> (\<not> list_all (\<lambda>s. \<not> isl (newsOfStory env s)) stories \<longrightarrow>
                   ''News search failed: Invalid time value. Falling back to post search.''
                      \<in> set (errors out))"
    if c: "news_search client (buildNewsQuery (p_queries params)) (newsOptions params) = Inr resp
        \<and> nr_data resp = Some stories" for resp stories
  proof -
    from c have r: "news_search client (buildNewsQuery (p_queries params)) (newsOptions params)
        = Inr resp" and d: "nr_data resp = Some stories" by simp_all
    show ?thesis
      by (simp add: n more st_def newsPhase_response(4,5) [OF r] d initial_fields)
  qed
  have runpost: "run = fst (postPhase env client params st)"
    if "p_posts params \<or> news out = []"
    using that by (simp add: cond_run n)
  have P1: "case posts_searchRecent client
                       (buildPostQuery (p_queries params) (p_lang params) (p_raw params))
                       (postOptions params start) of
                 Inl err \<Rightarrow>
                   errors out \<noteq> []
                   \<and> last (errors out) = ''Post search failed: '' @ projr (errText err)
                   \<and> posts out = []
               | Inr resp \<Rightarrow>
                   (\<forall>es. pr_errors resp = Some es \<longrightarrow>
                      (\<forall>e \<in> set es. ''Posts API error: '' @ JSON_stringify e \<in> set (errors out)))
                   \<and> (\<forall>tweets. pr_data resp = Some tweets \<longrightarrow>
                        set (posts out) =
                          set (map (postOfTweet (buildUserMap (pr_includes resp))) tweets)
                        \<and> length (posts out) = length tweets)"
    if c: "(p_posts params \<or> news out = [])
            \<and> startTimeIso env (p_days params) = Some start" for start
  proof (cases "posts_searchRecent client
                       (buildPostQuery (p_queries params) (p_lang params) (p_raw params))
                       (postOptions params start)")
    case (Inl err)
    from c have s: "startTimeIso env (p_days params) = Some start" by simp
    from textP s Inl obtain msg where m: "errText err = Inr msg" by (cases "errText err") auto
    show ?thesis
      using runpost c Inl by (simp add: e p p0 postPhase_thrown [OF s Inl] m)
  next
    case (Inr resp)
    from c have s: "startTimeIso env (p_days params) = Some start" by simp
    show ?thesis
      using runpost c Inr
      by (simp add: e p p0 postPhase_response(2,3) [OF s Inr] set_js_sort length_js_sort)
  qed
  have P2: "errors out \<noteq> [] \<and> last (errors out) = ''Post search failed: Invalid time value''"
    if c: "(p_posts params \<or> news out = []) \<and> startTimeIso env (p_days params) = None"
    using runpost c by (simp add: e postPhase_no_start)
  show ?thesis
    apply (rule exI [where x = out])
    using ret Q N1 N2 N3 P1 P2 by blast
qed

theorem searchNews_returns_output_witness:
  "(\<exists>out. searchNews sampleEnv (sampleClient (Inl timedOut) (Inr samplePostResponse))
             (sampleParams False) = Inr out
      \<and> ''News search failed: timeout. Falling back to post search.'' \<in> set (errors out)
      \<and> ''Posts API error: [503]'' \<in> set (errors out)
      \<and> set (posts out) = set (map (postOfTweet (buildUserMap sampleIncludes)) sampleTweets)
      \<and> length (posts out) = 5)
   \<and> (\<exists>out. searchNews sampleEnv (sampleClient (Inr sampleNewsResponse) (Inl timedOut))
             (sampleParams True) = Inr out
      \<and> ''News API error: [429]'' \<in> set (errors out)
      \<and> last (errors out) = ''Post search failed: timeout''
      \<and> news out = map (\<lambda>s. projr (newsOfStory sampleEnv s)) [goldStory, bareStory])
   \<and> (\<exists>out. searchNews sampleEnv (sampleClient (Inr partNewsResponse) (Inl timedOut))
             (sampleParams False) = Inr out
      \<and> news out = [projr (newsOfStory sampleEnv goldStory)]
      \<and> ''News search failed: Invalid time value. Falling back to post search.''
           \<in> set (errors out))"
proof -
  let ?A = "sampleClient (Inr sampleNewsResponse) (Inl timedOut)"
  let ?B = "sampleClient (Inl timedOut) (Inr samplePostResponse)"
  let ?start = "''2026-11-02T09:00:00.000Z''"
  have s: "\<And>b. startTimeIso sampleEnv (p_days (sampleParams b)) = Some ?start"
    by (simp add: sampleEnv_def)
  have nB: "\<And>q opts. news_search ?B q opts = Inl timedOut"
    and pB: "\<And>q opts. posts_searchRecent ?B q opts = Inr samplePostResponse"
    and nA: "\<And>q opts. news_search ?A q opts = Inr sampleNewsResponse"
    and pA: "\<And>q opts. posts_searchRecent ?A q opts = Inl timedOut"
    by (simp_all add: sampleClient_def)
  have e: "errText timedOut = Inr ''timeout''" by (simp add: timedOut_def errText_def)
  have rB: "pr_errors samplePostResponse = Some [Problem ''[503]'']"
    "pr_data samplePostResponse = Some sampleTweets"
    "pr_includes samplePostResponse = sampleIncludes"
    by (simp_all add: samplePostResponse_def)
  have rA: "nr_errors sampleNewsResponse = Some [Problem ''[429]'']"
    "nr_data sampleNewsResponse = Some [goldStory, bareStory]"
    by (simp_all add: sampleNewsResponse_def)
  have conv: "takeWhile (\<lambda>s. \<not> isl (newsOfStory sampleEnv s)) [goldStory, bareStory]
      = [goldStory, bareStory]"
    by code_simp
  have pt: "p_posts (sampleParams True)" by (simp add: sampleParams_def)
  have textNB: "\<forall>err. news_search ?B (buildNewsQuery (p_queries (sampleParams False)))
        (newsOptions (sampleParams False)) = Inl err \<longrightarrow> \<not> isl (errText err)"
    by (simp add: nB e)
  have textPB: "\<forall>start err. startTimeIso sampleEnv (p_days (sampleParams False)) = Some start
         \<and> posts_searchRecent ?B
              (buildPostQuery (p_queries (sampleParams False)) (p_lang (sampleParams False))
                 (p_raw (sampleParams False)))
              (postOptions (sampleParams False) start) = Inl err
         \<longrightarrow> \<not> isl (errText err)"
    by (simp add: pB)
  have textNA: "\<forall>err. news_search ?A (buildNewsQuery (p_queries (sampleParams True)))
        (newsOptions (sampleParams True)) = Inl err \<longrightarrow> \<not> isl (errText err)"
    by (simp add: nA)
  have textPA: "\<forall>start err. startTimeIso sampleEnv (p_days (sampleParams True)) = Some start
         \<and> posts_searchRecent ?A
              (buildPostQuery (p_queries (sampleParams True)) (p_lang (sampleParams True))
                 (p_raw (sampleParams True)))
              (postOptions (sampleParams True) start) = Inl err
         \<longrightarrow> \<not> isl (errText err)"
    by (simp add: pA e)
  from searchNews_returns_output [OF textNB textPB]
  obtain outB where B: "searchNews sampleEnv ?B (sampleParams False) = Inr outB"
    and B1: "\<forall>err. news_search ?B (buildNewsQuery (p_queries (sampleParams False)))
                (newsOptions (sampleParams False)) = Inl err
          \<longrightarrow> ''News search failed: '' @ projr (errText err) @ ''. Falling back to post search.''
                 \<in> set (errors outB)
              \<and> news outB = []
              \<and> postsInvoked sampleEnv ?B (sampleParams False)
                  = (startTimeIso sampleEnv (p_days (sampleParams False)) \<noteq> None)"
    and B2: "\<forall>start. (p_posts (sampleParams False) \<or> news outB = [])
            \<and> startTimeIso sampleEnv (p_days (sampleParams False)) = Some start
          \<longrightarrow> (case posts_searchRecent ?B
                (buildPostQuery (p_queries (sampleParams False)) (p_lang (sampleParams False))
                   (p_raw (sampleParams False)))
                (postOptions (sampleParams False) start) of
               Inl err \<Rightarrow> errors outB \<noteq> []
                   \<and> last (errors outB) = ''Post search failed: '' @ projr (errText err)
                   \<and> posts outB = []
             | Inr resp \<Rightarrow>
                 (\<forall>es. pr_errors resp = Some es \<longrightarrow>
                    (\<forall>e \<in> set es. ''Posts API error: '' @ JSON_stringify e \<in> set (errors outB)))
                 \<and> (\<forall>tweets. pr_data resp = Some tweets \<longrightarrow>
                      set (posts outB) =
                        set (map (postOfTweet (buildUserMap (pr_includes resp))) tweets)
                      \<and> length (posts outB) = length tweets))"
    by (elim exE conjE)
  from B1 [rule_format, OF nB]
  have B3: "''News search failed: timeout. Falling back to post search.'' \<in> set (errors outB)"
    and B4: "news outB = []"
    by (simp_all add: e)
  from B4 s have "(p_posts (sampleParams False) \<or> news outB = [])
            \<and> startTimeIso sampleEnv (p_days (sampleParams False)) = Some ?start"
    by simp
  from B2 [rule_format, OF this]
  have B5: "''Posts API error: [503]'' \<in> set (errors outB)"
    and B6: "set (posts outB) = set (map (postOfTweet (buildUserMap sampleIncludes)) sampleTweets)"
    and B7: "length (posts outB) = 5"
    by (simp_all add: pB rB sampleTweets_def)
  from searchNews_returns_output [OF textNA textPA]
  obtain outA where A: "searchNews sampleEnv ?A (sampleParams True) = Inr outA"
    and A1: "\<forall>resp es. news_search ?A (buildNewsQuery (p_queries (sampleParams True)))
                (newsOptions (sampleParams True)) = Inr resp
            \<and> nr_errors resp = Some es
          \<longrightarrow> (\<forall>e \<in> set es. ''News API error: '' @ JSON_stringify e \<in> set (errors outA))"
    and A2: "\<forall>resp stories.
            news_search ?A (buildNewsQuery (p_queries (sampleParams True)))
                (newsOptions (sampleParams True)) = Inr resp
            \<and> nr_data resp = Some stories
          \<longrightarrow> news outA =
                map (\<lambda>s. projr (newsOfStory sampleEnv s))
                  (takeWhile (\<lambda>s. \<not> isl (newsOfStory sampleEnv s)) stories)
              \<and> (\<not> list_all (\<lambda>s. \<not> isl (newsOfStory sampleEnv s)) stories \<longrightarrow>
                   ''News search failed: Invalid time value. Falling back to post search.''
                      \<in> set (errors outA))"
    and A3: "\<forall>start. (p_posts (sampleParams True) \<or> news outA = [])
            \<and> startTimeIso sampleEnv (p_days (sampleParams True)) = Some start
          \<longrightarrow> (case posts_searchRecent ?A
                (buildPostQuery (p_queries (sampleParams True)) (p_lang (sampleParams True))
                   (p_raw (sampleParams True)))
                (postOptions (sampleParams True) start) of
               Inl err \<Rightarrow> errors outA \<noteq> []
                   \<and> last (errors outA) = ''Post search failed: '' @ projr (errText err)
                   \<and> posts outA = []
             | Inr resp \<Rightarrow>
                 (\<forall>es. pr_errors resp = Some es \<longrightarrow>
                    (\<forall>e \<in> set es. ''Posts API error: '' @ JSON_stringify e \<in> set (errors outA)))
                 \<and> (\<forall>tweets. pr_data resp = Some tweets \<longrightarrow>
                      set (posts outA) =
                        set (map (postOfTweet (buildUserMap (pr_includes resp))) tweets)
                      \<and> length (posts outA) = length tweets))"
    by (elim exE conjE)
  have "news_search ?A (buildNewsQuery (p_queries (sampleParams True)))
                (newsOptions (sampleParams True)) = Inr sampleNewsResponse
            \<and> nr_errors sampleNewsResponse = Some [Problem ''[429]'']"
    by (simp add: nA rA)
  from A1 [rule_format, OF this, of "Problem ''[429]''"]
  have A4: "''News API error: [429]'' \<in> set (errors outA)" by simp
  have "news_search ?A (buildNewsQuery (p_queries (sampleParams True)))
                (newsOptions (sampleParams True)) = Inr sampleNewsResponse
            \<and> nr_data sampleNewsResponse = Some [goldStory, bareStory]"
    by (simp add: nA rA)
  from A2 [rule_format, OF this]
  have A5: "news outA = map (\<lambda>s. projr (newsOfStory sampleEnv s)) [goldStory, bareStory]"
    by (simp only: conv)
  from pt s have "(p_posts (sampleParams True) \<or> news outA = [])
            \<and> startTimeIso sampleEnv (p_days (sampleParams True)) = Some ?start"
    by simp
  from A3 [rule_format, OF this]
  have A6: "last (errors outA) = ''Post search failed: timeout''"
    by (simp add: pA e)
  from B B3 B5 B6 B7 have left: "\<exists>out. searchNews sampleEnv ?B (sampleParams False) = Inr out
      \<and> ''News search failed: timeout. Falling back to post search.'' \<in> set (errors out)
      \<and> ''Posts API error: [503]'' \<in> set (errors out)
      \<and> set (posts out) = set (map (postOfTweet (buildUserMap sampleIncludes)) sampleTweets)
      \<and> length (posts out) = 5"
    by (intro exI [where x = outB] conjI)
  from A A4 A6 A5 have right: "\<exists>out. searchNews sampleEnv ?A (sampleParams True) = Inr out
      \<and> ''News API error: [429]'' \<in> set (errors out)
      \<and> last (errors out) = ''Post search failed: timeout''
      \<and> news out = map (\<lambda>s. projr (newsOfStory sampleEnv s)) [goldStory, bareStory]"
    by (intro exI [where x = outA] conjI)
  let ?D = "sampleClient (Inr partNewsResponse) (Inl timedOut)"
  have nD: "\<And>q opts. news_search ?D q opts = Inr partNewsResponse"
    and pD: "\<And>q opts. posts_searchRecent ?D q opts = Inl timedOut"
    by (simp_all add: sampleClient_def)
  have textND: "\<forall>err. news_search ?D (buildNewsQuery (p_queries (sampleParams False)))
        (newsOptions (sampleParams False)) = Inl err \<longrightarrow> \<not> isl (errText err)"
    by (simp add: nD)
  have textPD: "\<forall>start err. startTimeIso sampleEnv (p_days (sampleParams False)) = Some start
         \<and> posts_searchRecent ?D
              (buildPostQuery (p_queries (sampleParams False)) (p_lang (sampleParams False))
                 (p_raw (sampleParams False)))
              (postOptions (sampleParams False) start) = Inl err
         \<longrightarrow> \<not> isl (errText err)"
    by (simp add: pD e)
  have rD: "nr_data partNewsResponse = Some [goldStory, storyWithBadStamp, bareStory]"
    by (simp add: partNewsResponse_def)
  have kept: "takeWhile (\<lambda>s. \<not> isl (newsOfStory sampleEnv s))
        [goldStory, storyWithBadStamp, bareStory] = [goldStory]"
    by code_simp
  have stopped: "\<not> list_all (\<lambda>s. \<not> isl (newsOfStory sampleEnv s))
        [goldStory, storyWithBadStamp, bareStory]"
    by code_simp
  from searchNews_returns_output [OF textND textPD]
  obtain outD where D: "searchNews sampleEnv ?D (sampleParams False) = Inr outD"
    and D1: "\<forall>resp stories.
            news_search ?D (buildNewsQuery (p_queries (sampleParams False)))
                (newsOptions (sampleParams False)) = Inr resp
            \<and> nr_data resp = Some stories
          \<longrightarrow> news outD =
                map (\<lambda>s. projr (newsOfStory sampleEnv s))
                  (takeWhile (\<lambda>s. \<not> isl (newsOfStory sampleEnv s)) stories)
              \<and> (\<not> list_all (\<lambda>s. \<not> isl (newsOfStory sampleEnv s)) stories \<longrightarrow>
                   ''News search failed: Invalid time value. Falling back to post search.''
                      \<in> set (errors outD))"
    by (elim exE conjE)
  have "news_search ?D (buildNewsQuery (p_queries (sampleParams False)))
                (newsOptions (sampleParams False)) = Inr partNewsResponse
            \<and> nr_data partNewsResponse = Some [goldStory, storyWithBadStamp, bareStory]"
    by (simp add: nD rD)
  from D1 [rule_format, OF this]
  have D2: "news outD = [projr (newsOfStory sampleEnv goldStory)]"
    and D3: "''News search failed: Invalid time value. Falling back to post search.''
           \<in> set (errors outD)"
    using stopped by (simp_all only: kept list.map simp_thms)
  from D D2 D3 have third: "\<exists>out. searchNews sampleEnv ?D (sampleParams False) = Inr out
      \<and> news out = [projr (newsOfStory sampleEnv goldStory)]
      \<and> ''News search failed: Invalid time value. Falling back to post search.''
           \<in> set (errors out)"
    by (intro exI [where x = outD] conjI)
  from left right third show ?thesis by (intro conjI)
qed

section \<open>Properties of the normalizer\<close>

lemma fold_users_lookup:
  "fold (\<lambda>user m. m(user_id user \<mapsto> userEntry user)) users m a =
     (if filter (\<lambda>u. user_id u = a) users = [] then m a
      else Some (userEntry (last (filter (\<lambda>u. user_id u = a) users))))"
  by (induction users arbitrary: m) auto

lemma nullish_case: "nullish x d = (case x of None \<Rightarrow> d | Some v \<Rightarrow> v)"
  by (cases x) simp_all

lemma nullish_bind:
  "(case Option.bind m f of None \<Rightarrow> d | Some v \<Rightarrow> v) =
     (case m of None \<Rightarrow> d | Some x \<Rightarrow> (case f x of None \<Rightarrow> d | Some c \<Rightarrow> c))"
  by (cases m) simp_all

text \<open>The lookup finds the last included user that has the id, and none when there is none.\<close>

lemma buildUserMap_lookup:
  "buildUserMap incl a =
     (let users = (case incl of
                     None \<Rightarrow> []
                   | Some inc \<Rightarrow> (case inc_users inc of None \<Rightarrow> [] | Some us \<Rightarrow> us));
          known = filter (\<lambda>u. user_id u = a) users
      in if known = [] then None else Some (userEntry (last known)))"
  by (simp add: buildUserMap_def fold_users_lookup Let_def split: option.splits)

text \<open>
  Claim C7 as stated fails: a record with nothing but a time stamp that is no number is
  partially populated, and its normalization throws instead of returning.
\<close>

theorem normalization_throws_counterexample:
  "newsOfStory sampleEnv storyWithBadStamp = Inl rangeError"
  by code_simp

text \<open>
  Claim C7, amended. For every story whose time stamp is missing, empty or convertible,
  and for every post, normalization returns a record in which each field is the value
  of the API record when it is there and the fallback when it is missing: the empty
  text, the empty list, 0 for a counter whether the metrics or only the counter are
  missing. The author of a post is the last included user with the post's author id:
  when there is none, the name and the handle are empty, the post is not verified and
  the permalink is the id-only form with the post's id; when the author has a non-empty
  handle, the permalink holds that handle and the post's id. A story whose time stamp
  is there and cannot be converted makes the conversion throw.
\<close>

theorem normalization_fallbacks:
  "((\<forall>ms. story_lastUpdatedAtMs story = Some ms \<longrightarrow> ms = [] \<or> msToIso env ms \<noteq> None) \<longrightarrow>
      newsOfStory env story =
        Inr \<lparr> news_id = (case story_restId story of None \<Rightarrow> [] | Some v \<Rightarrow> v),
              headline = (case story_name story of None \<Rightarrow> [] | Some v \<Rightarrow> v),
              summary = (case story_summary story of None \<Rightarrow> [] | Some v \<Rightarrow> v),
              hook = (case story_hook story of None \<Rightarrow> [] | Some v \<Rightarrow> v),
              category = (case story_category story of None \<Rightarrow> [] | Some v \<Rightarrow> v),
              news_keywords = (case story_keywords story of None \<Rightarrow> [] | Some ks \<Rightarrow> ks),
              updatedAt = (case story_lastUpdatedAtMs story of
                             None \<Rightarrow> []
                           | Some ms \<Rightarrow> if ms = [] then [] else the (msToIso env ms)) \<rparr>)
   \<and> ((\<exists>ms. story_lastUpdatedAtMs story = Some ms \<and> ms \<noteq> [] \<and> msToIso env ms = None) \<longrightarrow>
        newsOfStory env story = Inl rangeError)
   \<and> postOfTweet (buildUserMap incl) tweet =
       (let tweetId = (case tweet_id tweet of None \<Rightarrow> [] | Some v \<Rightarrow> v);
            author = (case tweet_authorId tweet of None \<Rightarrow> [] | Some v \<Rightarrow> v);
            users = (case incl of
                       None \<Rightarrow> []
                     | Some inc \<Rightarrow> (case inc_users inc of None \<Rightarrow> [] | Some us \<Rightarrow> us));
            known = filter (\<lambda>u. user_id u = author) users
        in \<lparr> post_id = tweetId,
             post_text = (case tweet_text tweet of None \<Rightarrow> [] | Some v \<Rightarrow> v),
             authorId = author,
             authorName = (if known = [] then [] else user_name (last known)),
             authorUsername = (if known = [] then [] else user_username (last known)),
             verified = (if known = [] then False
                         else (case user_verified (last known) of None \<Rightarrow> False | Some b \<Rightarrow> b)),
             createdAt = (case tweet_createdAt tweet of None \<Rightarrow> [] | Some v \<Rightarrow> v),
             likes = (case tweet_publicMetrics tweet of
                        None \<Rightarrow> 0
                      | Some m \<Rightarrow> (case like_count m of None \<Rightarrow> 0 | Some c \<Rightarrow> c)),
             reposts = (case tweet_publicMetrics tweet of
                          None \<Rightarrow> 0
                        | Some m \<Rightarrow> (case retweet_count m of None \<Rightarrow> 0 | Some c \<Rightarrow> c)),
             replies = (case tweet_publicMetrics tweet of
                          None \<Rightarrow> 0
                        | Some m \<Rightarrow> (case reply_count m of None \<Rightarrow> 0 | Some c \<Rightarrow> c)),
             url = (if known = [] \<or> user_username (last known) = []
                    then ''https://x.com/i/status/'' @ tweetId
                    else ''https://x.com/'' @ user_username (last known) @ ''/status/'' @ tweetId) \<rparr>)"
proof -
  have story: "(\<forall>ms. story_lastUpdatedAtMs story = Some ms \<longrightarrow> ms = [] \<or> msToIso env ms \<noteq> None) \<longrightarrow>
      newsOfStory env story =
        Inr \<lparr> news_id = (case story_restId story of None \<Rightarrow> [] | Some v \<Rightarrow> v),
              headline = (case story_name story of None \<Rightarrow> [] | Some v \<Rightarrow> v),
              summary = (case story_summary story of None \<Rightarrow> [] | Some v \<Rightarrow> v),
              hook = (case story_hook story of None \<Rightarrow> [] | Some v \<Rightarrow> v),
              category = (case story_category story of None \<Rightarrow> [] | Some v \<Rightarrow> v),
              news_keywords = (case story_keywords story of None \<Rightarrow> [] | Some ks \<Rightarrow> ks),
              updatedAt = (case story_lastUpdatedAtMs story of
                             None \<Rightarrow> []
                           | Some ms \<Rightarrow> if ms = [] then [] else the (msToIso env ms)) \<rparr>"
  proof (cases "story_lastUpdatedAtMs story")
    case None
    then show ?thesis by (simp add: newsOfStory_def nullish_case)
  next
    case (Some ms)
    show ?thesis
    proof (cases "ms = [] \<or> msToIso env ms \<noteq> None")
      case True
      with Some show ?thesis by (auto simp add: newsOfStory_def nullish_case)
    next
      case False
      with Some show ?thesis by simp
    qed
  qed
  have throws: "(\<exists>ms. story_lastUpdatedAtMs story = Some ms \<and> ms \<noteq> [] \<and> msToIso env ms = None) \<longrightarrow>
        newsOfStory env story = Inl rangeError"
    by (auto simp add: newsOfStory_def)
  have post: "postOfTweet (buildUserMap incl) tweet =
       (let tweetId = (case tweet_id tweet of None \<Rightarrow> [] | Some v \<Rightarrow> v);
            author = (case tweet_authorId tweet of None \<Rightarrow> [] | Some v \<Rightarrow> v);
            users = (case incl of
                       None \<Rightarrow> []
                     | Some inc \<Rightarrow> (case inc_users inc of None \<Rightarrow> [] | Some us \<Rightarrow> us));
            known = filter (\<lambda>u. user_id u = author) users
        in \<lparr> post_id = tweetId,
             post_text = (case tweet_text tweet of None \<Rightarrow> [] | Some v \<Rightarrow> v),
             authorId = author,
             authorName = (if known = [] then [] else user_name (last known)),
             authorUsername = (if known = [] then [] else user_username (last known)),
             verified = (if known = [] then False
                         else (case user_verified (last known) of None \<Rightarrow> False | Some b \<Rightarrow> b)),
             createdAt = (case tweet_createdAt tweet of None \<Rightarrow> [] | Some v \<Rightarrow> v),
             likes = (case tweet_publicMetrics tweet of
                        None \<Rightarrow> 0
                      | Some m \<Rightarrow> (case like_count m of None \<Rightarrow> 0 | Some c \<Rightarrow> c)),
             reposts = (case tweet_publicMetrics tweet of
                          None \<Rightarrow> 0
                        | Some m \<Rightarrow> (case retweet_count m of None \<Rightarrow> 0 | Some c \<Rightarrow> c)),
             replies = (case tweet_publicMetrics tweet of
                          None \<Rightarrow> 0
                        | Some m \<Rightarrow> (case reply_count m of None \<Rightarrow> 0 | Some c \<Rightarrow> c)),
             url = (if known = [] \<or> user_username (last known) = []
                    then ''https://x.com/i/status/'' @ tweetId
                    else ''https://x.com/'' @ user_username (last known) @ ''/status/'' @ tweetId) \<rparr>)"
    by (simp add: postOfTweet_def buildUserMap_lookup userEntry_def Let_def
        nullish_case nullish_bind)
  from story throws post show ?thesis by (intro conjI)
qed

theorem normalization_fallbacks_witness:
  "newsOfStory sampleEnv bareStory =
     Inr \<lparr> news_id = [], headline = [], summary = [], hook = [], category = [],
           news_keywords = [], updatedAt = [] \<rparr>
   \<and> newsOfStory sampleEnv storyWithBadStamp = Inl rangeError
   \<and> postOfTweet (buildUserMap sampleIncludes) bareTweet =
       \<lparr> post_id = [], post_text = [], authorId = [], authorName = [], authorUsername = [],
         verified = False, createdAt = [], likes = 0, reposts = 0, replies = 0,
         url = ''https://x.com/i/status/'' \<rparr>
   \<and> url (postOfTweet (buildUserMap sampleIncludes) (sampleTweet ''t2'' ''u9'' 0 5 0))
       = ''https://x.com/i/status/t2''
   \<and> url (postOfTweet (buildUserMap sampleIncludes) (sampleTweet ''t1'' ''u1'' 10 0 0))
       = ''https://x.com/ann/status/t1''"
proof -
  note bare = normalization_fallbacks [of bareStory sampleEnv sampleIncludes bareTweet]
  note bad = normalization_fallbacks [of storyWithBadStamp sampleEnv sampleIncludes
      "sampleTweet ''t2'' ''u9'' 0 5 0"]
  note one = normalization_fallbacks [of bareStory sampleEnv sampleIncludes
      "sampleTweet ''t1'' ''u1'' 10 0 0"]
  have s1: "newsOfStory sampleEnv bareStory =
     Inr \<lparr> news_id = [], headline = [], summary = [], hook = [], category = [],
           news_keywords = [], updatedAt = [] \<rparr>"
    using bare [THEN conjunct1] by (simp add: bareStory_def)
  have s2: "newsOfStory sampleEnv storyWithBadStamp = Inl rangeError"
    using bad [THEN conjunct2, THEN conjunct1]
    by (simp add: storyWithBadStamp_def bareStory_def sampleEnv_def)
  have p0: "postOfTweet (buildUserMap sampleIncludes) bareTweet =
       \<lparr> post_id = [], post_text = [], authorId = [], authorName = [], authorUsername = [],
         verified = False, createdAt = [], likes = 0, reposts = 0, replies = 0,
         url = ''https://x.com/i/status/'' \<rparr>"
    using bare [THEN conjunct2, THEN conjunct2]
    by (simp add: bareTweet_def sampleIncludes_def Let_def)
  have p2: "url (postOfTweet (buildUserMap sampleIncludes) (sampleTweet ''t2'' ''u9'' 0 5 0))
       = ''https://x.com/i/status/t2''"
    using bad [THEN conjunct2, THEN conjunct2]
    by (simp add: sampleTweet_def sampleIncludes_def Let_def)
  have p1: "url (postOfTweet (buildUserMap sampleIncludes) (sampleTweet ''t1'' ''u1'' 10 0 0))
       = ''https://x.com/ann/status/t1''"
    using one [THEN conjunct2, THEN conjunct2]
    by (simp add: sampleTweet_def sampleIncludes_def Let_def)
  from s1 s2 p0 p2 p1 show ?thesis by (intro conjI)
qed

end
